theory Spec2Isabelle
  imports Main
begin

section \<open>JavaScript values\<close>

text \<open>
  The library is TypeScript. The fragment of JavaScript that its request, URL and pagination
  code relies on is modelled here.

  A \<open>number\<close> is an integer or \<open>NaN\<close>: the page counts, identifiers and statuses the
  library handles are integers of the safe range, where doubles are exact, and \<open>NaN\<close> is
  what \<open>parseInt\<close> gives for a header that is not a number. Strings are lists of 8-bit
  characters: the bytes of a URL, or the code points of a header value.
\<close>

datatype jsnum = NaN | Num int

datatype jsval =
    JUndefined
  | JNull
  | JBool bool
  | JNumber jsnum
  | JString string
  | JArray "jsval list"
  | JObject "(string \<times> jsval) list"

datatype error =
    Error string
  | TypeError string
  | SyntaxError string
  | WPApiError string int jsval jsval
  | Rejected string

text \<open>
  \<open>Error\<close> is JavaScript's plain \<open>Error\<close> with its message, \<open>TypeError\<close> what a method call
  on \<open>null\<close> or \<open>undefined\<close> throws, \<open>SyntaxError\<close> what \<open>response.json()\<close> rejects with,
  \<open>WPApiError message status code data\<close> the library's own error class, and \<open>Rejected\<close> any
  rejection that comes from outside the library (the transport, an aborted signal, a hook).
\<close>

text \<open>Truthiness, as \<open>||\<close>, \<open>&&\<close>, \<open>!\<close> and \<open>?:\<close> test it.\<close>

fun truthy_num :: "jsnum \<Rightarrow> bool" where
  "truthy_num NaN = False"
| "truthy_num (Num n) = (n \<noteq> 0)"

fun truthy :: "jsval \<Rightarrow> bool" where
  "truthy JUndefined = False"
| "truthy JNull = False"
| "truthy (JBool b) = b"
| "truthy (JNumber n) = truthy_num n"
| "truthy (JString s) = (s \<noteq> [])"
| "truthy (JArray xs) = True"
| "truthy (JObject kvs) = True"

text \<open>\<open>a < b\<close> on numbers: false as soon as one side is \<open>NaN\<close>.\<close>

fun js_less :: "jsnum \<Rightarrow> jsnum \<Rightarrow> bool" where
  "js_less (Num a) (Num b) = (a < b)"
| "js_less _ _ = False"

text \<open>\<open>a - b\<close> on numbers.\<close>

fun js_minus :: "jsnum \<Rightarrow> jsnum \<Rightarrow> jsnum" where
  "js_minus (Num a) (Num b) = Num (a - b)"
| "js_minus _ _ = NaN"

text \<open>
  \<open>ToLength\<close>, which \<open>Array.from({ length: n }, f)\<close> applies to \<open>n\<close>: \<open>NaN\<close> and
  negative numbers give 0. (Its upper clamp at \<open>2^53 - 1\<close> is beyond the safe range.)
\<close>

fun ToLength :: "jsnum \<Rightarrow> nat" where
  "ToLength NaN = 0"
| "ToLength (Num n) = nat n"

subsection \<open>Strings\<close>

definition startsWith :: "string \<Rightarrow> string \<Rightarrow> bool" where
  "startsWith s p = (take (length p) s = p)"

definition endsWith :: "string \<Rightarrow> string \<Rightarrow> bool" where
  "endsWith s p = (length p \<le> length s \<and> drop (length s - length p) s = p)"

text \<open>\<open>s.includes(p)\<close>: \<open>p\<close> occurs in \<open>s\<close> at some position.\<close>

fun includes_str :: "string \<Rightarrow> string \<Rightarrow> bool" where
  "includes_str [] p = (p = [])"
| "includes_str (c # cs) p = (startsWith (c # cs) p \<or> includes_str cs p)"


text \<open>\<open>xs.join(sep)\<close> on strings.\<close>

fun join :: "string \<Rightarrow> string list \<Rightarrow> string" where
  "join sep [] = []"
| "join sep [x] = x"
| "join sep (x # y # ys) = x @ sep @ join sep (y # ys)"

text \<open>Decimal digits of a natural number, and \<open>n.toString()\<close> of a number.\<close>

fun digits :: "nat \<Rightarrow> string" where
  "digits n = (if n < 10 then [''0123456789'' ! n]
               else digits (n div 10) @ [''0123456789'' ! (n mod 10)])"

declare digits.simps [simp del]

fun num_toString :: "jsnum \<Rightarrow> string" where
  "num_toString NaN = ''NaN''"
| "num_toString (Num n) = (if n < 0 then ''-'' @ digits (nat (- n)) else digits (nat n))"

text \<open>
  \<open>String(v)\<close>. Inside \<open>Array.prototype.join\<close>, which is what an array's \<open>toString\<close> is,
  \<open>null\<close> and \<open>undefined\<close> elements give the empty string.
\<close>

fun str :: "jsval \<Rightarrow> string" where
  "str JUndefined = ''undefined''"
| "str JNull = ''null''"
| "str (JBool b) = (if b then ''true'' else ''false'')"
| "str (JNumber n) = num_toString n"
| "str (JString s) = s"
| "str (JArray xs) =
     join '','' (map (\<lambda>v. if v = JUndefined \<or> v = JNull then [] else str v) xs)"
| "str (JObject kvs) = ''[object Object]''"

text \<open>\<open>xs.join(sep)\<close> on an array of values.\<close>

definition Array_join :: "string \<Rightarrow> jsval list \<Rightarrow> string" where
  "Array_join sep xs = join sep (map (\<lambda>v. if v = JUndefined \<or> v = JNull then [] else str v) xs)"

text \<open>\<open>v.toString()\<close>: a method call, so a \<open>TypeError\<close> on \<open>null\<close> and \<open>undefined\<close>.\<close>

fun toString :: "jsval \<Rightarrow> error + string" where
  "toString JUndefined = Inl (TypeError ''Cannot read properties of undefined'')"
| "toString JNull = Inl (TypeError ''Cannot read properties of null'')"
| "toString v = Inr (str v)"

fun isArray :: "jsval \<Rightarrow> bool" where
  "isArray (JArray xs) = True"
| "isArray _ = False"

text \<open>\<open>o.k\<close>: a property read. Reading a property of \<open>null\<close> or \<open>undefined\<close> throws.\<close>

fun get_prop :: "jsval \<Rightarrow> string \<Rightarrow> error + jsval" where
  "get_prop JUndefined k = Inl (TypeError ''Cannot read properties of undefined'')"
| "get_prop JNull k = Inl (TypeError ''Cannot read properties of null'')"
| "get_prop (JObject kvs) k = Inr (case map_of kvs k of None \<Rightarrow> JUndefined | Some v \<Rightarrow> v)"
| "get_prop _ k = Inr JUndefined"

section \<open>URL builder (http.ts)\<close>

text \<open>
  \<open>normalizeUrl\<close>: \<open>baseUrl.slice(0, -1)\<close> drops the last character, \<open>butlast\<close>.
\<close>

definition normalizeUrl :: "string \<Rightarrow> string \<Rightarrow> string" where
  "normalizeUrl baseUrl path =
     (let cleanBase = (if endsWith baseUrl ''/'' then butlast baseUrl else baseUrl);
          cleanPath = (if startsWith path ''/'' then path else ''/'' @ path)
      in cleanBase @ cleanPath)"

text \<open>
  \<open>buildSearchParams\<close>. The parameter object is given as \<open>Object.entries(params)\<close>, the list
  the function iterates over (the keys in insertion order, after any keys that are array
  indices); \<open>None\<close> is an absent \<open>params\<close>. The result is the list of
  pairs appended to the \<open>URLSearchParams\<close>. \<open>append_array\<close> is the \<open>value.forEach\<close> of the
  array branch, \<open>append_entry\<close> the body of the outer \<open>forEach\<close> for one entry.
\<close>

fun append_array :: "string \<Rightarrow> jsval list \<Rightarrow> error + (string \<times> string) list" where
  "append_array key [] = Inr []"
| "append_array key (v # vs) =
     (case toString v of
        Inl e \<Rightarrow> Inl e
      | Inr s \<Rightarrow> (case append_array key vs of
                    Inl e \<Rightarrow> Inl e
                  | Inr ps \<Rightarrow> Inr ((key, s) # ps)))"

fun append_entry :: "string \<Rightarrow> jsval \<Rightarrow> error + (string \<times> string) list" where
  "append_entry key v =
     (if v = JUndefined \<or> v = JNull then Inr []
      else if key = ''_fields'' \<and> isArray v then
        (case v of
           JArray xs \<Rightarrow> if length xs > 0 then Inr [(''_fields'', Array_join '','' xs)] else Inr []
         | _ \<Rightarrow> Inr [])
      else if key = ''_embed'' \<and> v = JBool True then Inr [(''_embed'', ''true'')]
      else if isArray v then
        (case v of JArray xs \<Rightarrow> append_array key xs | _ \<Rightarrow> Inr [])
      else
        (case toString v of Inl e \<Rightarrow> Inl e | Inr s \<Rightarrow> Inr [(key, s)]))"

fun forEach_entry :: "(string \<times> jsval) list \<Rightarrow> error + (string \<times> string) list" where
  "forEach_entry [] = Inr []"
| "forEach_entry ((key, v) # es) =
     (case append_entry key v of
        Inl e \<Rightarrow> Inl e
      | Inr ps \<Rightarrow> (case forEach_entry es of
                     Inl e \<Rightarrow> Inl e
                   | Inr qs \<Rightarrow> Inr (ps @ qs)))"

definition buildSearchParams :: "(string \<times> jsval) list option \<Rightarrow> error + (string \<times> string) list" where
  "buildSearchParams params =
     (case params of None \<Rightarrow> Inr [] | Some entries \<Rightarrow> forEach_entry entries)"

text \<open>
  \<open>URLSearchParams.prototype.toString\<close>, the \<open>application/x-www-form-urlencoded\<close>
  serializer: a byte is kept if it is an ASCII letter, a digit or one of \<open>* - . _\<close>, a space
  becomes \<open>+\<close>, every other byte becomes \<open>%\<close> and two upper-case hexadecimal digits.
\<close>

definition urlencoded_keep :: "char \<Rightarrow> bool" where
  "urlencoded_keep c =
     (c \<in> set ''abcdefghijklmnopqrstuvwxyzABCDEFGHIJKLMNOPQRSTUVWXYZ0123456789*-._'')"

definition urlencoded_byte :: "char \<Rightarrow> string" where
  "urlencoded_byte c =
     (if urlencoded_keep c then [c]
      else if c = CHR '' '' then ''+''
      else [CHR ''%'', ''0123456789ABCDEF'' ! (of_char c div 16),
            ''0123456789ABCDEF'' ! (of_char c mod 16)])"

definition urlencoded :: "string \<Rightarrow> string" where
  "urlencoded s = concat (map urlencoded_byte s)"

definition URLSearchParams_toString :: "(string \<times> string) list \<Rightarrow> string" where
  "URLSearchParams_toString ps = join ''&'' (map (\<lambda>(k, v). urlencoded k @ ''='' @ urlencoded v) ps)"

definition buildUrl :: "string \<Rightarrow> string \<Rightarrow> (string \<times> jsval) list option \<Rightarrow> error + string" where
  "buildUrl baseUrl path params =
     (let normalizedUrl = normalizeUrl baseUrl path
      in case buildSearchParams params of
           Inl e \<Rightarrow> Inl e
         | Inr searchParams \<Rightarrow>
             (let queryString = URLSearchParams_toString searchParams
              in Inr (normalizedUrl @ (if queryString \<noteq> [] then ''?'' @ queryString else []))))"

section \<open>Responses and asynchronous calls\<close>

text \<open>
  What the library reads of a fetch \<open>Response\<close>: \<open>ok\<close>, \<open>status\<close>, \<open>statusText\<close>,
  \<open>headers.get(name)\<close> (the lookup itself, which is case-insensitive inside the platform),
  and the outcome of \<open>json()\<close>, \<open>None\<close> when the body is not JSON and the call rejects.
\<close>

record response =
  ok :: bool
  status :: int
  statusText :: string
  headers_get :: "string \<Rightarrow> string option"
  json :: "jsval option"

text \<open>
  An asynchronous call acts on the world outside the library (the server, the credentials a
  hook has captured, a mock's call counter) and settles with a value or a rejection. The
  world is passed explicitly, so the calls a function makes are the world changes it shows.
\<close>

type_synonym ('a, 'w) promise = "'w \<Rightarrow> (error + 'a) \<times> 'w"

section \<open>Error normalizer (errors.ts)\<close>

text \<open>
  \<open>WPApiError.fromResponse\<close>: the body is parsed only under a JSON content type, and a
  parse failure is caught and leaves the empty payload. The property reads that follow are
  outside the \<open>try\<close> block.
\<close>

definition fromResponse :: "response \<Rightarrow> error + error" where
  "fromResponse r =
     (let errorData =
            (case headers_get r ''content-type'' of
               None \<Rightarrow> JObject []
             | Some contentType \<Rightarrow>
                 if includes_str contentType ''application/json''
                 then (case json r of None \<Rightarrow> JObject [] | Some j \<Rightarrow> j)
                 else JObject [])
      in case get_prop errorData ''message'' of
           Inl e \<Rightarrow> Inl e
         | Inr m \<Rightarrow>
             (case get_prop errorData ''code'' of
                Inl e \<Rightarrow> Inl e
              | Inr c \<Rightarrow>
                  (case get_prop errorData ''data'' of
                     Inl e \<Rightarrow> Inl e
                   | Inr d \<Rightarrow>
                       Inr (WPApiError
                              (if truthy m then str m
                               else if statusText r \<noteq> [] then statusText r
                               else ''Unknown error'')
                              (status r) c d))))"

text \<open>\<open>handleApiError\<close> never returns: this is the error it throws.\<close>

definition handleApiError :: "response \<Rightarrow> error" where
  "handleApiError r = (case fromResponse r of Inl e \<Rightarrow> e | Inr e \<Rightarrow> e)"

section \<open>Authentication (auth)\<close>

record 'w AuthResponse =
  headers :: "string \<Rightarrow> string option"
  beforeRequest :: "(unit, 'w) promise option"
  afterRequest :: "(response \<Rightarrow> (response, 'w) promise) option"
  shouldRefresh :: "(response \<Rightarrow> (bool, 'w) promise) option"
  refresh :: "(unit, 'w) promise option"

text \<open>
  A credentials object maps the field names it has to their string values. \<open>method_name\<close>
  is the field \<open>method\<close>, the tag as a string, since \<open>createAuth\<close> has a \<open>default\<close> branch for tags outside the
  declared union.
\<close>

record 'w AuthConfig =
  method_name :: string
  credentials :: "(string \<Rightarrow> string option) option"
  onTokenRefresh :: "(string \<Rightarrow> (unit, 'w) promise) option"

text \<open>
  A field read inside a template literal or a header value: a missing field reads as
  \<open>undefined\<close> and is written out as the text \<open>undefined\<close>.
\<close>

definition field :: "(string \<Rightarrow> string option) \<Rightarrow> string \<Rightarrow> string" where
  "field c k = (case c k of None \<Rightarrow> ''undefined'' | Some v \<Rightarrow> v)"

text \<open>\<open>btoa\<close>: Base64 of a string of code points below 256.\<close>

definition b64 :: "nat \<Rightarrow> char" where
  "b64 n = ''ABCDEFGHIJKLMNOPQRSTUVWXYZabcdefghijklmnopqrstuvwxyz0123456789+/'' ! n"

fun btoa_bytes :: "nat list \<Rightarrow> string" where
  "btoa_bytes [] = []"
| "btoa_bytes [a] = [b64 (a div 4), b64 ((a mod 4) * 16), CHR ''='', CHR ''='']"
| "btoa_bytes [a, b] =
     [b64 (a div 4), b64 ((a mod 4) * 16 + b div 16), b64 ((b mod 16) * 4), CHR ''='']"
| "btoa_bytes (a # b # c # rest) =
     [b64 (a div 4), b64 ((a mod 4) * 16 + b div 16), b64 ((b mod 16) * 4 + c div 64),
      b64 (c mod 64)] @ btoa_bytes rest"

definition btoa :: "string \<Rightarrow> string" where
  "btoa s = btoa_bytes (map of_char s)"

text \<open>
  \<open>AuthProviders\<close>. The \<open>refresh\<close> of \<open>bearer\<close> and \<open>oauth2\<close> and the \<open>beforeRequest\<close> of
  \<open>hmac\<close> have bodies that hold comments only: they resolve and change nothing.
\<close>

definition noop :: "(unit, 'w) promise" where
  "noop w = (Inr (), w)"

definition none :: "'w AuthResponse" where
  "none = \<lparr>headers = Map.empty, beforeRequest = None, afterRequest = None,
           shouldRefresh = None, refresh = None\<rparr>"

definition basic :: "(string \<Rightarrow> string option) \<Rightarrow> 'w AuthResponse" where
  "basic c =
     (let base64Credentials = btoa (field c ''username'' @ '':'' @ field c ''password'')
      in \<lparr>headers = [''Authorization'' \<mapsto> ''Basic '' @ base64Credentials],
          beforeRequest = None, afterRequest = None, shouldRefresh = None, refresh = None\<rparr>)"

definition bearer ::
  "(string \<Rightarrow> string option) \<Rightarrow> (string \<Rightarrow> (unit, 'w) promise) option \<Rightarrow> 'w AuthResponse" where
  "bearer c onRefresh =
     \<lparr>headers = [''Authorization'' \<mapsto> ''Bearer '' @ field c ''token''],
      beforeRequest = None, afterRequest = None, shouldRefresh = None, refresh = Some noop\<rparr>"

definition apiKey :: "(string \<Rightarrow> string option) \<Rightarrow> 'w AuthResponse" where
  "apiKey c =
     \<lparr>headers = [''X-API-Key'' \<mapsto> field c ''apiKey''],
      beforeRequest = None, afterRequest = None, shouldRefresh = None, refresh = None\<rparr>"

definition hmac :: "(string \<Rightarrow> string option) \<Rightarrow> 'w AuthResponse" where
  "hmac c =
     \<lparr>headers = Map.empty, beforeRequest = Some noop, afterRequest = None,
      shouldRefresh = None, refresh = None\<rparr>"

definition nonce :: "(string \<Rightarrow> string option) \<Rightarrow> 'w AuthResponse" where
  "nonce c =
     \<lparr>headers = [''X-WP-Nonce'' \<mapsto> field c ''nonce''],
      beforeRequest = None, afterRequest = None, shouldRefresh = None, refresh = None\<rparr>"

definition oauth2 ::
  "(string \<Rightarrow> string option) \<Rightarrow> (string \<Rightarrow> (unit, 'w) promise) option \<Rightarrow> 'w AuthResponse" where
  "oauth2 c onRefresh =
     \<lparr>headers = (case c ''accessToken'' of
                   None \<Rightarrow> Map.empty
                 | Some t \<Rightarrow> if t \<noteq> [] then [''Authorization'' \<mapsto> ''Bearer '' @ t]
                             else Map.empty),
      beforeRequest = None, afterRequest = None, shouldRefresh = None, refresh = Some noop\<rparr>"

text \<open>
  \<open>createAuth\<close>. \<open>"k" in credentials === false\<close> is \<open>c k = None\<close>; \<open>!credentials\<close> is an
  absent credentials object. Every \<open>throw\<close> is a plain \<open>Error\<close> with the message given.
\<close>

definition createAuth :: "'w AuthConfig \<Rightarrow> error + 'w AuthResponse" where
  "createAuth config =
     (let m = AuthConfig.method_name config; cr = credentials config; onTokenRefresh = onTokenRefresh config in
      if m = ''none'' then Inr none
      else if m = ''basic'' then
        (case cr of
           None \<Rightarrow> Inl (Error ''Basic auth requires username and password'')
         | Some c \<Rightarrow>
             if c ''username'' = None
             then Inl (Error ''Basic auth requires username and password'')
             else Inr (basic c))
      else if m = ''bearer'' then
        (case cr of
           None \<Rightarrow> Inl (Error ''Bearer auth requires a token'')
         | Some c \<Rightarrow>
             if c ''token'' = None
             then Inl (Error ''Bearer auth requires a token'')
             else Inr (bearer c onTokenRefresh))
      else if m = ''apiKey'' then
        (case cr of
           None \<Rightarrow> Inl (Error ''API Key auth requires an apiKey'')
         | Some c \<Rightarrow>
             if c ''apiKey'' = None
             then Inl (Error ''API Key auth requires an apiKey'')
             else Inr (apiKey c))
      else if m = ''hmac'' then
        (case cr of
           None \<Rightarrow> Inl (Error ''HMAC auth requires an apiKey and secret'')
         | Some c \<Rightarrow>
             if c ''apiKey'' = None \<or> c ''secret'' = None
             then Inl (Error ''HMAC auth requires an apiKey and secret'')
             else Inr (hmac c))
      else if m = ''nonce'' then
        (case cr of
           None \<Rightarrow> Inl (Error ''Nonce auth requires a nonce'')
         | Some c \<Rightarrow>
             if c ''nonce'' = None
             then Inl (Error ''Nonce auth requires a nonce'')
             else Inr (nonce c))
      else if m = ''oauth2'' then
        (case cr of
           None \<Rightarrow> Inl (Error ''OAuth2 requires clientId and clientSecret'')
         | Some c \<Rightarrow>
             if c ''clientId'' = None \<or> c ''clientSecret'' = None
             then Inl (Error ''OAuth2 requires clientId and clientSecret'')
             else Inr (oauth2 c onTokenRefresh))
      else Inl (Error (''Unsupported auth method: '' @ m)))"

section \<open>Request executor (http.ts)\<close>

datatype http_method = GET | POST | PUT | PATCH | DELETE

text \<open>
  The \<open>RequestInit\<close> handed to \<open>fetch\<close>; \<open>method_name\<close> is its field \<open>method\<close>. \<open>body\<close> holds the value whose \<open>JSON.stringify\<close>
  text is sent; \<open>signal\<close> is the identity of an \<open>AbortSignal\<close>.
\<close>

record RequestInit =
  method_name :: http_method
  headers :: "string \<Rightarrow> string option"
  body :: "jsval option"
  signal :: "nat option"

text \<open>
  \<open>ApiRequestConfig\<close>; \<open>method_name\<close> is its field \<open>method\<close>. An omitted \<open>method\<close>, \<open>params\<close>, \<open>body\<close>, \<open>auth\<close> or \<open>signal\<close> is
  \<open>None\<close>; an omitted \<open>headers\<close> is the empty object, as the destructuring default makes it.
\<close>

record 'w ApiRequestConfig =
  baseUrl :: string
  path :: string
  method_name :: "http_method option"
  params :: "(string \<times> jsval) list option"
  body :: "jsval option"
  auth :: "'w AuthResponse option"
  headers :: "string \<Rightarrow> string option"
  signal :: "nat option"

text \<open>\<open>await auth?.beforeRequest?.()\<close> and \<open>await auth.refresh?.()\<close>: an absent hook is skipped.\<close>

definition call_optional :: "(unit, 'w) promise option \<Rightarrow> (unit, 'w) promise" where
  "call_optional h w = (case h of None \<Rightarrow> (Inr (), w) | Some f \<Rightarrow> f w)"

definition auth_hook ::
  "'w AuthResponse option \<Rightarrow> ('w AuthResponse \<Rightarrow> 'h option) \<Rightarrow> 'h option" where
  "auth_hook a sel = (case a of None \<Rightarrow> None | Some x \<Rightarrow> sel x)"

text \<open>
  The \<open>requestInit\<close> of \<open>makeApiRequest\<close>: the caller's headers overridden by the auth
  headers, and for a truthy body under POST, PUT or PATCH the body and, unless the caller's
  own headers have a truthy \<open>Content-Type\<close>, the JSON content type.
\<close>

definition build_requestInit :: "'w ApiRequestConfig \<Rightarrow> RequestInit" where
  "build_requestInit config =
     (let m = (case ApiRequestConfig.method_name config of None \<Rightarrow> GET | Some x \<Rightarrow> x);
          hs = ApiRequestConfig.headers config ++
               (case auth config of None \<Rightarrow> Map.empty | Some a \<Rightarrow> AuthResponse.headers a);
          requestInit = \<lparr>RequestInit.method_name = m, RequestInit.headers = hs,
                         RequestInit.body = None,
                         RequestInit.signal = ApiRequestConfig.signal config\<rparr>
      in case ApiRequestConfig.body config of
           None \<Rightarrow> requestInit
         | Some b \<Rightarrow>
             if truthy b \<and> (m = POST \<or> m = PUT \<or> m = PATCH)
             then (let withBody = requestInit\<lparr>RequestInit.body := Some b\<rparr>
                   in if (case ApiRequestConfig.headers config ''Content-Type'' of
                            None \<Rightarrow> True | Some v \<Rightarrow> v = [])
                      then withBody\<lparr>RequestInit.headers :=
                             (RequestInit.headers withBody)(''Content-Type'' \<mapsto> ''application/json'')\<rparr>
                      else withBody)
             else requestInit)"

text \<open>
  \<open>makeApiRequest\<close>. \<open>fetch\<close> is the platform's transport. The retry after a refresh is a
  call of the function itself with the same \<open>config\<close> and nothing bounds it, so a run that
  never returns is \<open>None\<close>.
\<close>

partial_function (option) makeApiRequest ::
  "(string \<Rightarrow> RequestInit \<Rightarrow> (response, 'w) promise) \<Rightarrow> 'w ApiRequestConfig \<Rightarrow> 'w
     \<Rightarrow> ((error + response) \<times> 'w) option" where
  "makeApiRequest fetch config w =
     (case buildUrl (baseUrl config) (path config) (params config) of
        Inl e \<Rightarrow> Some (Inl e, w)
      | Inr url \<Rightarrow>
          (case call_optional (auth_hook (auth config) beforeRequest) w of
             (Inl e, w1) \<Rightarrow> Some (Inl e, w1)
           | (Inr u, w1) \<Rightarrow>
               (case fetch url (build_requestInit config) w1 of
                  (Inl e, w2) \<Rightarrow> Some (Inl e, w2)
                | (Inr response, w2) \<Rightarrow>
                    if \<not> ok response then
                      (case auth_hook (auth config) shouldRefresh of
                         None \<Rightarrow> Some (Inl (handleApiError response), w2)
                       | Some should \<Rightarrow>
                           (case should response w2 of
                              (Inl e, w3) \<Rightarrow> Some (Inl e, w3)
                            | (Inr b, w3) \<Rightarrow>
                                if b then
                                  (case call_optional (auth_hook (auth config) refresh) w3 of
                                     (Inl e, w4) \<Rightarrow> Some (Inl e, w4)
                                   | (Inr u', w4) \<Rightarrow> makeApiRequest fetch config w4)
                                else Some (Inl (handleApiError response), w3)))
                    else
                      (case auth_hook (auth config) afterRequest of
                         None \<Rightarrow> Some (Inr response, w2)
                       | Some after \<Rightarrow> Some (after response w2)))))"

text \<open>\<open>response.json()\<close>, and \<open>apiGet\<close>: a GET whose parsed body is returned.\<close>

definition response_json :: "response \<Rightarrow> error + jsval" where
  "response_json r =
     (case json r of None \<Rightarrow> Inl (SyntaxError ''Unexpected token'') | Some j \<Rightarrow> Inr j)"

definition apiGet ::
  "(string \<Rightarrow> RequestInit \<Rightarrow> (response, 'w) promise) \<Rightarrow> string \<Rightarrow> string
     \<Rightarrow> (string \<times> jsval) list option \<Rightarrow> 'w AuthResponse option \<Rightarrow> nat option \<Rightarrow> 'w
     \<Rightarrow> ((error + jsval) \<times> 'w) option" where
  "apiGet fetch base p ps a sig w =
     (case makeApiRequest fetch
             \<lparr>baseUrl = base, path = p, method_name = Some GET, params = ps, body = None,
              auth = a, headers = Map.empty, signal = sig\<rparr> w of
        None \<Rightarrow> None
      | Some (Inl e, w1) \<Rightarrow> Some (Inl e, w1)
      | Some (Inr response, w1) \<Rightarrow> Some (response_json response, w1))"

section \<open>Pagination (http.ts, utils.ts)\<close>

text \<open>
  \<open>parseInt(s, 10)\<close>: leading white space is skipped (of the code points below 256, the
  tab, the line feed, the vertical tab, the form feed, the carriage return, the space and
  the no-break space), one sign is read, then the longest run of decimal digits; no digit
  gives \<open>NaN\<close>.
\<close>

definition is_space :: "char \<Rightarrow> bool" where
  "is_space c = (of_char c \<in> {9, 10, 11, 12, 13, 32, 160 :: nat})"

definition is_digit :: "char \<Rightarrow> bool" where
  "is_digit c = (48 \<le> (of_char c :: nat) \<and> (of_char c :: nat) \<le> 57)"

definition digits_value :: "string \<Rightarrow> int" where
  "digits_value ds = foldl (\<lambda>a c. 10 * a + (int (of_char c) - 48)) 0 ds"

definition parseInt :: "string \<Rightarrow> jsnum" where
  "parseInt s =
     (let s1 = dropWhile is_space s;
          neg = (case s1 of [] \<Rightarrow> False | c # cs \<Rightarrow> c = CHR ''-'');
          s2 = (case s1 of [] \<Rightarrow> [] | c # cs \<Rightarrow> if c = CHR ''-'' \<or> c = CHR ''+'' then cs else s1);
          ds = takeWhile is_digit s2
      in if ds = [] then NaN
         else Num (if neg then - digits_value ds else digits_value ds))"

record list_params =
  page :: "jsnum option"
  per_page :: "jsnum option"

record WPPaginationInfo =
  total_items :: jsnum
  totalPages :: jsnum
  currentPage :: jsnum
  perPage :: jsnum
  hasMore :: bool

record 'a WPPaginatedResponse =
  items :: "'a list"
  pagination :: WPPaginationInfo

text \<open>
  \<open>extractPaginationInfo\<close>. \<open>total_items\<close> is the field \<open>total\<close>. \<open>header_or\<close> is
  \<open>response.headers.get(name) || "0"\<close> and \<open>param_or\<close> is \<open>params?.k || d\<close>, both of which
  replace every falsy value, not only an absent one.
\<close>

definition header_or :: "response \<Rightarrow> string \<Rightarrow> string \<Rightarrow> string" where
  "header_or r name d = (case headers_get r name of None \<Rightarrow> d | Some v \<Rightarrow> if v \<noteq> [] then v else d)"

definition param_or ::
  "'p list_params_scheme option \<Rightarrow> ('p list_params_scheme \<Rightarrow> jsnum option) \<Rightarrow> int \<Rightarrow> jsnum" where
  "param_or ps sel d =
     (case ps of
        None \<Rightarrow> Num d
      | Some p \<Rightarrow> (case sel p of None \<Rightarrow> Num d | Some n \<Rightarrow> if truthy_num n then n else Num d))"

definition extractPaginationInfo ::
  "response \<Rightarrow> 'p list_params_scheme option \<Rightarrow> WPPaginationInfo" where
  "extractPaginationInfo r ps =
     (let total = parseInt (header_or r ''X-WP-Total'' ''0'');
          totalPages = parseInt (header_or r ''X-WP-TotalPages'' ''0'');
          currentPage = param_or ps page 1;
          perPage = param_or ps per_page 10
      in \<lparr>total_items = total, totalPages = totalPages, currentPage = currentPage,
          perPage = perPage, hasMore = js_less currentPage totalPages\<rparr>)"

text \<open>
  \<open>apiGetPaginated\<close>: a GET whose result is the parsed body, as \<open>items\<close>, with the pagination
  that \<open>extractPaginationInfo\<close> reads from the response and from the parameter object of the
  call. The body is returned as it is parsed (an array for a list endpoint; the type
  \<open>T[]\<close> checks nothing), so the result is the pair of the two. The one parameter object
  is read twice: \<open>entries\<close> gives its \<open>Object.entries\<close>, for the query string.
\<close>

definition apiGetPaginated ::
  "(string \<Rightarrow> RequestInit \<Rightarrow> (response, 'w) promise)
     \<Rightarrow> ('p list_params_scheme \<Rightarrow> (string \<times> jsval) list) \<Rightarrow> string \<Rightarrow> string
     \<Rightarrow> 'p list_params_scheme option \<Rightarrow> 'w AuthResponse option \<Rightarrow> nat option \<Rightarrow> 'w
     \<Rightarrow> ((error + jsval \<times> WPPaginationInfo) \<times> 'w) option" where
  "apiGetPaginated fetch entries base p ps a sig w =
     (case makeApiRequest fetch
             \<lparr>baseUrl = base, path = p, method_name = Some GET, params = map_option entries ps,
              body = None, auth = a, headers = Map.empty, signal = sig\<rparr> w of
        None \<Rightarrow> None
      | Some (Inl e, w1) \<Rightarrow> Some (Inl e, w1)
      | Some (Inr response, w1) \<Rightarrow>
          (case response_json response of
             Inl e \<Rightarrow> Some (Inl e, w1)
           | Inr parsed \<Rightarrow> Some (Inr (parsed, extractPaginationInfo response ps), w1)))"

text \<open>
  The \<open>list\<close> functions of the post type, taxonomy and post status endpoints do not use
  \<open>apiGetPaginated\<close>. Each ends with the same \<open>return\<close> statement, which builds the result
  from the response, the array of the items and the parameter object: this is it.
\<close>

definition postTypes_list_result ::
  "response \<Rightarrow> 'a list \<Rightarrow> 'p list_params_scheme option \<Rightarrow> 'a WPPaginatedResponse" where
  "postTypes_list_result r itemsArray ps =
     (let total = headers_get r ''X-WP-Total'';
          totalPages = headers_get r ''X-WP-TotalPages''
      in \<lparr>items = itemsArray,
          pagination =
            \<lparr>total_items = (case total of
                              None \<Rightarrow> Num (int (length itemsArray))
                            | Some t \<Rightarrow> if t \<noteq> [] then parseInt t
                                        else Num (int (length itemsArray))),
             totalPages = (case totalPages of
                             None \<Rightarrow> Num 1
                           | Some t \<Rightarrow> if t \<noteq> [] then parseInt t else Num 1),
             currentPage = param_or ps page 1,
             perPage = param_or ps per_page (int (length itemsArray)),
             hasMore = False\<rparr>\<rparr>)"

text \<open>
  \<open>createPaginationHelpers(listFn)\<close>. \<open>listFn\<close> takes the parameter object and is
  asynchronous. \<open>{ ...params, page: n }\<close> is a record update; an omitted \<open>params\<close> is the
  record whose fields are all absent.

  \<open>start_all\<close> is \<open>Array.from({ length }, (_, i) => listFn(...))\<close>: every call is started,
  in index order, whatever the earlier ones settle with. \<open>Promise_all\<close> gives the values in
  index order, or a rejection when one of the calls rejects (the first one in index order
  here; which one it is when several reject depends on timing, outside this model).
\<close>

fun start_all :: "(nat \<Rightarrow> ('a, 'w) promise) \<Rightarrow> nat list \<Rightarrow> 'w \<Rightarrow> (error + 'a) list \<times> 'w" where
  "start_all f [] w = ([], w)"
| "start_all f (i # is) w =
     (case f i w of (r, w1) \<Rightarrow> (case start_all f is w1 of (rs, w2) \<Rightarrow> (r # rs, w2)))"

fun Promise_all :: "(error + 'a) list \<Rightarrow> error + 'a list" where
  "Promise_all [] = Inr []"
| "Promise_all (Inl e # rs) = Inl e"
| "Promise_all (Inr x # rs) = (case Promise_all rs of Inl e \<Rightarrow> Inl e | Inr xs \<Rightarrow> Inr (x # xs))"

definition listAll ::
  "('p list_params_scheme \<Rightarrow> ('a WPPaginatedResponse, 'w) promise) \<Rightarrow> 'p list_params_scheme
     \<Rightarrow> ('a list, 'w) promise" where
  "listAll listFn ps w =
     (case listFn (ps\<lparr>page := Some (Num 1), per_page := Some (Num 100)\<rparr>) w of
        (Inl e, w1) \<Rightarrow> (Inl e, w1)
      | (Inr firstPage, w1) \<Rightarrow>
          (let tp = totalPages (pagination firstPage) in
           if tp = Num 1 then (Inr (items firstPage), w1)
           else
             (case start_all
                     (\<lambda>i. listFn (ps\<lparr>page := Some (Num (int i + 2)), per_page := Some (Num 100)\<rparr>))
                     [0 ..< ToLength (js_minus tp (Num 1))] w1 of
                (rs, w2) \<Rightarrow>
                  (case Promise_all rs of
                     Inl e \<Rightarrow> (Inl e, w2)
                   | Inr remainingPages \<Rightarrow>
                       (Inr (items firstPage @ concat (map items remainingPages)), w2)))))"

text \<open>
  \<open>pages\<close>, an async generator. Its state between two calls of \<open>next()\<close> is the pair of its
  local variables \<open>page\<close> and \<open>hasMore\<close>; \<open>pages_start\<close> is the state of a fresh generator.
  One \<open>next()\<close> runs the loop test, the call of \<open>listFn\<close> and the \<open>yield\<close>; the two
  assignments after the \<open>yield\<close>, which run when the consumer asks again, touch nothing but
  the state and are part of the same step here. A generator that threw is finished.
  (\<open>totalPages\<close> is a number in the declared type, so the destructuring default
  \<open>totalPages = 1\<close>, which stands in for \<open>undefined\<close> only, never applies.)
\<close>

datatype pages_state = Loop (page_var: int) (hasMore_var: bool)

datatype 'a iter_result = Yield 'a | Done | Threw error

definition pages_start :: pages_state where
  "pages_start = Loop 1 True"

fun pages_next ::
  "('p list_params_scheme \<Rightarrow> ('a WPPaginatedResponse, 'w) promise) \<Rightarrow> 'p list_params_scheme
     \<Rightarrow> pages_state \<Rightarrow> 'w \<Rightarrow> 'a WPPaginatedResponse iter_result \<times> pages_state \<times> 'w" where
  "pages_next listFn ps (Loop pg continue) w =
     (if continue then
        (case listFn (ps\<lparr>page := Some (Num pg)\<rparr>) w of
           (Inl e, w1) \<Rightarrow> (Threw e, Loop pg False, w1)
         | (Inr response, w1) \<Rightarrow>
             (Yield response,
              Loop (pg + 1) (js_less (Num pg) (totalPages (pagination response))), w1))
      else (Done, Loop pg False, w))"

section \<open>Test doubles\<close>

text \<open>
  The mocks the properties below are run on. \<open>traced f\<close> is a spy around an asynchronous
  function: it behaves as \<open>f\<close> and appends every call, with its argument and what it
  settled with, to a log kept beside the world.
\<close>

definition traced ::
  "('p \<Rightarrow> ('a, 'w) promise) \<Rightarrow> 'p \<Rightarrow> ('a, 'w \<times> ('p \<times> (error + 'a)) list) promise" where
  "traced f p = (\<lambda>(w, log). case f p w of (r, w1) \<Rightarrow> (r, (w1, log @ [(p, r)])))"

definition ok_response :: "(string \<times> string) list \<Rightarrow> jsval \<Rightarrow> response" where
  "ok_response hs j =
     \<lparr>ok = True, status = 200, statusText = ''OK'', headers_get = map_of hs, json = Some j\<rparr>"

definition unauthorized :: response where
  "unauthorized =
     \<lparr>ok = False, status = 401, statusText = ''Unauthorized'', headers_get = Map.empty,
      json = None\<rparr>"

definition no_params :: list_params where
  "no_params = \<lparr>page = None, per_page = None\<rparr>"

text \<open>
  A consumer of the generator: \<open>for await (const response of pages(params))\<close> that collects
  the pages it is given and breaks after \<open>n\<close> of them. It ends early when the generator is
  done or throws.
\<close>

fun for_await ::
  "nat \<Rightarrow> ('p list_params_scheme \<Rightarrow> ('a WPPaginatedResponse, 'w) promise) \<Rightarrow> 'p list_params_scheme
     \<Rightarrow> pages_state \<Rightarrow> 'w \<Rightarrow> 'a WPPaginatedResponse list \<times> pages_state \<times> 'w" where
  "for_await 0 listFn ps st w = ([], st, w)"
| "for_await (Suc n) listFn ps st w =
     (case pages_next listFn ps st w of
        (Yield r, st1, w1) \<Rightarrow>
          (case for_await n listFn ps st1 w1 of (rs, st2, w2) \<Rightarrow> (r # rs, st2, w2))
      | (Done, st1, w1) \<Rightarrow> ([], st1, w1)
      | (Threw e, st1, w1) \<Rightarrow> ([], st1, w1))"

text \<open>
  A paginated source of 207 items, the numbers from 0 on, in pages of 100, 100 and 7. Its
  world is the number of calls it has received.
\<close>

definition three_pages :: "nat list list" where
  "three_pages = [[0 ..< 100], [100 ..< 200], [200 ..< 207]]"

definition three_pages_listFn :: "list_params \<Rightarrow> (nat WPPaginatedResponse, nat) promise" where
  "three_pages_listFn p calls =
     (case page p of
        Some (Num k) \<Rightarrow>
          if 1 \<le> k \<and> k \<le> 3
          then (Inr \<lparr>items = three_pages ! nat (k - 1),
                     pagination = \<lparr>total_items = Num 207, totalPages = Num 3,
                                   currentPage = Num k, perPage = Num 100,
                                   hasMore = (k < 3)\<rparr>\<rparr>, calls + 1)
          else (Inl (Rejected ''rest_post_invalid_page_number''), calls + 1)
      | _ \<Rightarrow> (Inl (Rejected ''rest_invalid_param''), calls + 1))"

text \<open>
  A list function that reports two pages and, as the list functions of the post type,
  taxonomy and post status endpoints do, \<open>hasMore: false\<close> on every page.
\<close>

definition flat_page :: "nat WPPaginatedResponse" where
  "flat_page =
     \<lparr>items = [1, 2],
      pagination = \<lparr>total_items = Num 2, totalPages = Num 2, currentPage = Num 1,
                    perPage = Num 2, hasMore = False\<rparr>\<rparr>"

definition flat_listFn :: "list_params \<Rightarrow> (nat WPPaginatedResponse, nat) promise" where
  "flat_listFn p calls = (Inr flat_page, calls + 1)"

text \<open>
  A transport that answers 401 to its first call and 200 afterwards, and one that answers
  401 always. Their world is a pair of counters: the calls the transport has received and
  the calls \<open>refresh\<close> has received. \<open>refreshing_auth\<close> asks for a refresh on every failed
  response; its \<open>refresh\<close> does nothing but count its calls.
\<close>

definition fetch_401_then_200 :: "string \<Rightarrow> RequestInit \<Rightarrow> (response, nat \<times> nat) promise" where
  "fetch_401_then_200 url init w =
     (Inr (if fst w = 0 then unauthorized else ok_response [] (JString ''body'')),
      (fst w + 1, snd w))"

definition counted_refresh :: "(unit, nat \<times> nat) promise" where
  "counted_refresh w = (Inr (), (fst w, snd w + 1))"

definition refreshing_auth :: "(nat \<times> nat) AuthResponse" where
  "refreshing_auth =
     \<lparr>AuthResponse.headers = Map.empty, beforeRequest = None, afterRequest = None,
      shouldRefresh = Some (\<lambda>r w. (Inr True, w)), refresh = Some counted_refresh\<rparr>"

definition fetch_always_401 :: "string \<Rightarrow> RequestInit \<Rightarrow> (response, nat \<times> nat) promise" where
  "fetch_always_401 url init w = (Inr unauthorized, (fst w + 1, snd w))"

definition posts_request :: "(nat \<times> nat) ApiRequestConfig" where
  "posts_request =
     \<lparr>baseUrl = ''https://example.com'', path = ''/wp/v2/posts'', method_name = Some GET,
      params = None, body = None, auth = Some refreshing_auth, headers = Map.empty,
      signal = None\<rparr>"

text \<open>
  A list endpoint of 25 items in 3 pages: a transport that answers every call with 200, the
  two pagination headers and an empty array, its world being the number of calls received;
  and \<open>Object.entries\<close> of a parameter object that has at most \<open>page\<close> and \<open>per_page\<close>.
\<close>

definition fetch_25_in_3 :: "string \<Rightarrow> RequestInit \<Rightarrow> (response, nat) promise" where
  "fetch_25_in_3 url init calls =
     (Inr (ok_response [(''X-WP-Total'', ''25''), (''X-WP-TotalPages'', ''3'')] (JArray [])),
      calls + 1)"

definition page_entries :: "list_params \<Rightarrow> (string \<times> jsval) list" where
  "page_entries p =
     (case page p of None \<Rightarrow> [] | Some n \<Rightarrow> [(''page'', JNumber n)]) @
     (case per_page p of None \<Rightarrow> [] | Some n \<Rightarrow> [(''per_page'', JNumber n)])"

text \<open>
  An auth configuration for the method \<open>basic\<close> whose credentials have a \<open>username\<close> and no
  \<open>password\<close>.
\<close>

definition username_only :: "string \<Rightarrow> string option" where
  "username_only = [''username'' \<mapsto> ''admin'']"

definition basic_without_password :: "unit AuthConfig" where
  "basic_without_password =
     \<lparr>AuthConfig.method_name = ''basic'', credentials = Some username_only,
      onTokenRefresh = None\<rparr>"

section \<open>Properties of the URL builder\<close>

lemma endsWith_slash: "endsWith s ''/'' \<longleftrightarrow> s \<noteq> [] \<and> last s = CHR ''/''"
proof (cases s rule: rev_cases)
  case Nil
  then show ?thesis by (simp add: endsWith_def)
next
  case (snoc ys y)
  then show ?thesis by (auto simp: endsWith_def)
qed





















lemma strip_no_double:
  assumes "\<not> endsWith base ''//''"
  shows "\<not> endsWith (if endsWith base ''/'' then butlast base else base) ''/''"
proof (cases "endsWith base ''/''")
  case False
  then show ?thesis by simp
next
  case True
  then obtain ys where base: "base = ys @ ''/''"
    by (cases base rule: rev_cases) (auto simp: endsWith_slash)
  have "\<not> endsWith ys ''/''"
  proof
    assume "endsWith ys ''/''"
    then obtain zs where "ys = zs @ ''/''"
      by (cases ys rule: rev_cases) (auto simp: endsWith_slash)
    then have "endsWith base ''//''" by (simp add: base endsWith_def)
    with assms show False by simp
  qed
  then show ?thesis using True by (simp add: base)
qed

text \<open>
  Claim C8, as stated: an empty path returns the base with its trailing slash removed. It does
  not: \<open>normalizeUrl("https://site.com/", "")\<close> is \<open>https://site.com/\<close>.
\<close>

theorem normalizeUrl_empty_path_counterexample:
  "normalizeUrl ''https://site.com/'' '''' = ''https://site.com/''
   \<and> normalizeUrl ''https://site.com/'' '''' \<noteq> ''https://site.com''"
  by (simp add: normalizeUrl_def endsWith_def startsWith_def)

text \<open>
  Claim C8, amended. The empty path and the path \<open>/\<close> give the same result: the base without
  one trailing slash, followed by one slash. When the base does not end in two slashes, the
  result ends in exactly one.
\<close>

theorem normalizeUrl_empty_and_root_path:
  "normalizeUrl base '''' = (if endsWith base ''/'' then butlast base else base) @ ''/''
   \<and> normalizeUrl base ''/'' = (if endsWith base ''/'' then butlast base else base) @ ''/''
   \<and> (\<not> endsWith base ''//'' \<longrightarrow>
        endsWith (normalizeUrl base ''/'') ''/'' \<and> \<not> endsWith (normalizeUrl base ''/'') ''//'')"
proof -
  let ?c = "if endsWith base ''/'' then butlast base else base"
  have a: "normalizeUrl base '''' = ?c @ ''/''" "normalizeUrl base ''/'' = ?c @ ''/''"
    by (simp_all add: normalizeUrl_def startsWith_def)
  have "endsWith (?c @ ''/'') ''/''" by (simp add: endsWith_def)
  moreover have "\<not> endsWith (?c @ ''/'') ''//''" if "\<not> endsWith base ''//''"
    using strip_no_double[OF that] by (cases ?c rule: rev_cases) (auto simp: endsWith_def)
  ultimately show ?thesis using a by simp
qed

theorem normalizeUrl_empty_and_root_path_witness:
  "\<not> endsWith ''https://site.com/'' ''//''
   \<and> normalizeUrl ''https://site.com/'' '''' = ''https://site.com/''
   \<and> normalizeUrl ''https://site.com/'' ''/'' = ''https://site.com/''
   \<and> endsWith (normalizeUrl ''https://site.com/'' ''/'') ''/''
   \<and> \<not> endsWith (normalizeUrl ''https://site.com/'' ''/'') ''//''"
  using normalizeUrl_empty_and_root_path[of "''https://site.com/''"]
  by (simp add: endsWith_def)

section \<open>Properties of pagination\<close>

lemma parseInt_0: "parseInt ''0'' = Num 0"
  by (simp add: parseInt_def is_space_def is_digit_def digits_value_def)

lemma extractPaginationInfo_fields:
  "total_items (extractPaginationInfo r ps) = parseInt (header_or r ''X-WP-Total'' ''0'')"
  "totalPages (extractPaginationInfo r ps) = parseInt (header_or r ''X-WP-TotalPages'' ''0'')"
  "currentPage (extractPaginationInfo r ps) = param_or ps page 1"
  "perPage (extractPaginationInfo r ps) = param_or ps per_page 10"
  "hasMore (extractPaginationInfo r ps)
     = js_less (param_or ps page 1) (parseInt (header_or r ''X-WP-TotalPages'' ''0''))"
  by (simp_all add: extractPaginationInfo_def Let_def)

lemma js_less_zero: "js_less x (Num 0) \<longleftrightarrow> (\<exists>n. x = Num n \<and> n < 0)"
  by (cases x) auto

text \<open>
  Claim C1, amended. When the response has neither \<open>X-WP-Total\<close> nor \<open>X-WP-TotalPages\<close>,
  \<open>extractPaginationInfo\<close> reports a total of 0 and 0 total pages; the items are not among
  its arguments. \<open>hasMore\<close> is \<open>currentPage < 0\<close>, so it is false for every current page
  that is not negative.
\<close>

theorem extractPaginationInfo_without_headers:
  assumes "headers_get r ''X-WP-Total'' = None" and "headers_get r ''X-WP-TotalPages'' = None"
  shows "total_items (extractPaginationInfo r ps) = Num 0
    \<and> totalPages (extractPaginationInfo r ps) = Num 0
    \<and> hasMore (extractPaginationInfo r ps) = js_less (currentPage (extractPaginationInfo r ps)) (Num 0)
    \<and> (\<forall>n. currentPage (extractPaginationInfo r ps) = Num n \<and> 0 \<le> n
          \<longrightarrow> \<not> hasMore (extractPaginationInfo r ps))"
  using assms by (auto simp: extractPaginationInfo_fields header_or_def parseInt_0 js_less_zero)

text \<open>
  Claim C1, as stated: without the headers the total pages default to 1 and the metadata is
  inferred from the item count. For a response without the headers whose body holds two
  items, the total pages are 0, not 1, and the total is 0.
\<close>

theorem extractPaginationInfo_without_headers_counterexample:
  "totalPages (extractPaginationInfo (ok_response [] (JArray [JNumber (Num 7), JNumber (Num 8)])) (Some no_params)) = Num 0
   \<and> total_items (extractPaginationInfo (ok_response [] (JArray [JNumber (Num 7), JNumber (Num 8)])) (Some no_params)) = Num 0
   \<and> totalPages (extractPaginationInfo (ok_response [] (JArray [JNumber (Num 7), JNumber (Num 8)])) (Some no_params)) \<noteq> Num 1"
  by (simp add: extractPaginationInfo_fields header_or_def parseInt_0 ok_response_def)

theorem extractPaginationInfo_without_headers_witness:
  "headers_get (ok_response [] JNull) ''X-WP-Total'' = None
   \<and> headers_get (ok_response [] JNull) ''X-WP-TotalPages'' = None
   \<and> totalPages (extractPaginationInfo (ok_response [] JNull) (Some no_params)) = Num 0
   \<and> currentPage (extractPaginationInfo (ok_response [] JNull) (Some no_params)) = Num 1
   \<and> \<not> hasMore (extractPaginationInfo (ok_response [] JNull) (Some no_params))"
  using extractPaginationInfo_without_headers[of "ok_response [] JNull" "Some no_params"]
  by (simp add: ok_response_def extractPaginationInfo_fields param_or_def no_params_def)

lemma start_all_traced:
  "start_all (\<lambda>i. f (g i)) is w = (rs, w') \<Longrightarrow>
   start_all (\<lambda>i. traced f (g i)) is (w, log) = (rs, (w', log @ zip (map g is) rs))"
proof (induction "is" arbitrary: w log rs w')
  case Nil
  then show ?case by simp
next
  case (Cons i "is")
  obtain r w1 where 1: "f (g i) w = (r, w1)" by (cases "f (g i) w")
  obtain rs1 w2 where 2: "start_all (\<lambda>i. f (g i)) is w1 = (rs1, w2)"
    by (cases "start_all (\<lambda>i. f (g i)) is w1")
  from Cons.prems 1 2 have eq: "rs = r # rs1" "w' = w2" by auto
  from Cons.IH[OF 2, of "log @ [(g i, r)]"] 1 2 eq
  show ?case by (simp add: traced_def)
qed

lemma start_all_length: "start_all f is w = (rs, w') \<Longrightarrow> length rs = length is"
proof (induction "is" arbitrary: w rs)
  case Nil
  then show ?case by simp
next
  case (Cons i "is")
  then show ?case by (auto split: prod.splits)
qed

lemma Promise_all_Inr: "Promise_all (map Inr xs) = Inr xs"
  by (induction xs) auto

lemma pages_from_2: "0 \<le> m \<Longrightarrow> map (\<lambda>i. int i + 2) [0 ..< nat m] = [2 .. m + 1]"
proof (induction "nat m" arbitrary: m)
  case 0
  then show ?case by simp
next
  case (Suc k)
  then have k: "k = nat (m - 1)" "0 \<le> m - 1" "nat m = Suc (nat (m - 1))" by auto
  have "[2 .. m + 1] = [2 .. m] @ [m + 1]"
    using Suc.prems Suc.hyps(2) by (simp add: upto_rec2)
  moreover have "map (\<lambda>i. int i + 2) [0 ..< nat (m - 1)] = [2 .. m - 1 + 1]"
    using Suc.hyps(1)[OF k(1) k(2)] .
  ultimately show ?case using k by simp
qed

text \<open>
  Claim C10. When the first page reports at most one total page (0 included, which
  \<open>extractPaginationInfo\<close> reports without the headers), \<open>listAll\<close> returns the items of
  page 1 and leaves the world as that one call left it; spied upon, the list function has
  received one call, for page 1 with \<open>per_page\<close> 100.
\<close>

theorem listAll_single_page:
  assumes "listFn (ps\<lparr>page := Some (Num 1), per_page := Some (Num 100)\<rparr>) w = (Inr firstPage, w1)"
    and "totalPages (pagination firstPage) = Num n"
    and "n \<le> 1"
  shows "listAll listFn ps w = (Inr (items firstPage), w1)
    \<and> listAll (traced listFn) ps (w, []) =
        (Inr (items firstPage),
         (w1, [(ps\<lparr>page := Some (Num 1), per_page := Some (Num 100)\<rparr>, Inr firstPage)]))"
  using assms by (simp add: listAll_def traced_def)

theorem listAll_single_page_witness:
  "totalPages (extractPaginationInfo (ok_response [] JNull) (Some no_params)) = Num 0
   \<and> listAll (\<lambda>p w. (Inr \<lparr>items = [1, 2, 3 :: nat],
                            pagination = extractPaginationInfo (ok_response [] JNull) (Some p)\<rparr>, Suc w))
        no_params (0 :: nat) = (Inr [1, 2, 3], 1)"
  using listAll_single_page[of
      "\<lambda>p w. (Inr \<lparr>items = [1, 2, 3 :: nat],
                   pagination = extractPaginationInfo (ok_response [] JNull) (Some p)\<rparr>, Suc w)"
      no_params "0 :: nat"
      "\<lparr>items = [1, 2, 3 :: nat],
        pagination = extractPaginationInfo (ok_response [] JNull)
          (Some (no_params\<lparr>page := Some (Num 1), per_page := Some (Num 100)\<rparr>))\<rparr>" 1 0]
  by (simp add: extractPaginationInfo_fields header_or_def ok_response_def parseInt_0)

lemma upt_0_2: "[0 ..< 2] = [0, 1 :: nat]"
  by (simp add: upt_rec)

lemma three_pages_concat: "[0 ..< 100] @ [100 ..< 200] @ [200 ..< 207] = [0 ..< (207 :: nat)]"
proof -
  have "[0 ..< 100 + 100] = [0 ..< 100] @ [100 ..< 100 + (100 :: nat)]"
    by (rule upt_add_eq_append) simp
  moreover have "[0 ..< 200 + 7] = [0 ..< 200] @ [200 ..< 200 + (7 :: nat)]"
    by (rule upt_add_eq_append) simp
  ultimately show ?thesis by (simp del: upt_rec_numeral)
qed

lemma map_fst_zip_same: "length xs = length ys \<Longrightarrow> map fst (zip xs ys) = xs"
  by (rule map_fst_zip) simp

lemma Promise_all_map_Inr: "rs = map Inr xs \<Longrightarrow> Promise_all rs = Inr xs"
  by (simp add: Promise_all_Inr)

text \<open>
  Claim C6. When the first page reports \<open>n \<ge> 1\<close> total pages, the calls \<open>listAll\<close> makes of
  the list function are those for the pages 1 to \<open>n\<close>, in ascending order, each with
  \<open>per_page\<close> 100, and no other; for \<open>n = 1\<close> it returns the items of page 1 after that
  one call; and when every call succeeds, the result is the concatenation of the items of the
  pages in the order of the calls. The instance that follows is the source of three pages of 100, 100 and
  7 items: 207 items in their order across the pages, and three calls.
\<close>

theorem listAll_all_pages:
  assumes first: "listFn (ps\<lparr>page := Some (Num 1), per_page := Some (Num 100)\<rparr>) w = (Inr firstPage, w1)"
    and tp: "totalPages (pagination firstPage) = Num n"
    and n: "1 \<le> n"
  shows "\<exists>res w' log.
           listAll (traced listFn) ps (w, []) = (res, (w', log))
         \<and> listAll listFn ps w = (res, w')
         \<and> map fst log = map (\<lambda>i. ps\<lparr>page := Some (Num i), per_page := Some (Num 100)\<rparr>) [1 .. n]
         \<and> (n = 1 \<longrightarrow> res = Inr (items firstPage) \<and> w' = w1)
         \<and> (\<forall>pages. map snd log = map Inr pages \<longrightarrow> res = Inr (concat (map items pages)))"
proof (cases "n = 1")
  case True
  have "\<forall>pages. [Inr firstPage] = map Inr pages \<longrightarrow> items firstPage = concat (map items pages)"
    by (auto simp: map_eq_Cons_conv)
  then show ?thesis using first tp True by (simp add: listAll_def traced_def)
next
  case False
  let ?g = "\<lambda>i. ps\<lparr>page := Some (Num (int i + 2)), per_page := Some (Num 100)\<rparr>"
  let ?pg = "\<lambda>i. ps\<lparr>page := Some (Num i), per_page := Some (Num 100)\<rparr>"
  let ?is = "[0 ..< nat (n - 1)]"
  obtain rs w2 where run: "start_all (\<lambda>i. listFn (?g i)) ?is w1 = (rs, w2)"
    by (cases "start_all (\<lambda>i. listFn (?g i)) ?is w1")
  have trun: "start_all (\<lambda>i. traced listFn (?g i)) ?is (w1, [(?pg 1, Inr firstPage)])
      = (rs, (w2, [(?pg 1, Inr firstPage)] @ zip (map ?g ?is) rs))"
    using start_all_traced[where f = listFn and g = ?g, OF run] .
  have len: "length (map ?g ?is) = length rs" using start_all_length[OF run] by simp
  have "map ?g ?is = map ?pg (map (\<lambda>i. int i + 2) ?is)" by (simp add: comp_def)
  also have "\<dots> = map ?pg [2 .. n]" using pages_from_2[of "n - 1"] n by simp
  finally have g: "map ?g ?is = map ?pg [2 .. n]" .
  have up: "[1 .. n] = 1 # [2 .. n]" using n by (simp add: upto_rec1)
  let ?log = "[(?pg 1, Inr firstPage)] @ zip (map ?g ?is) rs"
  let ?res = "case Promise_all rs of Inl e \<Rightarrow> Inl e
              | Inr remainingPages \<Rightarrow> Inr (items firstPage @ concat (map items remainingPages))"
  have fstlog: "map fst ?log = map ?pg [1 .. n]"
    using map_fst_zip_same[OF len] g up by simp
  have sndlog: "map snd ?log = Inr firstPage # rs"
    using len by simp
  have res: "?res = Inr (concat (map items pages))" if "map snd ?log = map Inr pages" for pages
  proof -
    from that sndlog obtain rest where p: "pages = firstPage # rest" "rs = map Inr rest"
      by (auto simp: map_eq_Cons_conv Cons_eq_map_conv)
    then show ?thesis by (simp add: Promise_all_Inr)
  qed
  have t: "listAll (traced listFn) ps (w, []) = (?res, (w2, ?log))"
    using first tp False trun by (simp add: listAll_def traced_def split: sum.splits)
  have u: "listAll listFn ps w = (?res, w2)"
    using first tp False run by (simp add: listAll_def split: sum.splits)
  show ?thesis using t u fstlog res False by blast
qed

lemma three_pages_listFn_page:
  "three_pages_listFn (no_params\<lparr>page := Some (Num 1), per_page := Some (Num 100)\<rparr>) c
     = (Inr \<lparr>items = [0 ..< 100], pagination = \<lparr>total_items = Num 207, totalPages = Num 3,
              currentPage = Num 1, perPage = Num 100, hasMore = True\<rparr>\<rparr>, c + 1)"
  "three_pages_listFn (no_params\<lparr>page := Some (Num 2), per_page := Some (Num 100)\<rparr>) c
     = (Inr \<lparr>items = [100 ..< 200], pagination = \<lparr>total_items = Num 207, totalPages = Num 3,
              currentPage = Num 2, perPage = Num 100, hasMore = True\<rparr>\<rparr>, c + 1)"
  "three_pages_listFn (no_params\<lparr>page := Some (Num 3), per_page := Some (Num 100)\<rparr>) c
     = (Inr \<lparr>items = [200 ..< 207], pagination = \<lparr>total_items = Num 207, totalPages = Num 3,
              currentPage = Num 3, perPage = Num 100, hasMore = False\<rparr>\<rparr>, c + 1)"
  by (simp_all add: three_pages_listFn_def three_pages_def del: upt_rec_numeral)

lemma listAll_three_pages:
  "listAll three_pages_listFn no_params 0 = (Inr [0 ..< 207], 3)"
  using three_pages_concat
  by (simp add: listAll_def three_pages_listFn_page upt_0_2 del: upt_rec_numeral)

theorem listAll_all_pages_witness:
  "three_pages_listFn (no_params\<lparr>page := Some (Num 1), per_page := Some (Num 100)\<rparr>) 0
     = (Inr \<lparr>items = [0 ..< 100], pagination = \<lparr>total_items = Num 207, totalPages = Num 3,
              currentPage = Num 1, perPage = Num 100, hasMore = True\<rparr>\<rparr>, 1)
   \<and> (1 :: int) \<le> 3
   \<and> listAll three_pages_listFn no_params 0 = (Inr [0 ..< 207], 3)
   \<and> length [0 ..< (207 :: nat)] = 207
   \<and> (\<exists>log. listAll (traced three_pages_listFn) no_params (0, []) = (Inr [0 ..< 207], (3, log))
         \<and> map fst log = map (\<lambda>i. no_params\<lparr>page := Some (Num i), per_page := Some (Num 100)\<rparr>) [1, 2, 3])"
proof -
  have up: "[1 .. 3] = [1, 2, 3 :: int]" by (simp add: upto_rec1)
  from listAll_all_pages[where listFn = three_pages_listFn and ps = no_params and w = 0 and n = 3,
      OF three_pages_listFn_page(1)[of 0]]
  obtain res w' log where
    "listAll (traced three_pages_listFn) no_params (0, []) = (res, (w', log))"
    "listAll three_pages_listFn no_params 0 = (res, w')"
    "map fst log = map (\<lambda>i. no_params\<lparr>page := Some (Num i), per_page := Some (Num 100)\<rparr>) [1 .. 3]"
    by auto
  then show ?thesis using listAll_three_pages three_pages_listFn_page(1)[of 0] up by auto
qed

lemma traced_apply:
  "traced f p (w, log) = (case f p w of (r, w1) \<Rightarrow> (r, (w1, log @ [(p, r)])))"
  by (simp add: traced_def)

lemma for_await_traced:
  assumes "for_await n (traced listFn) ps (Loop k h) (w, log) = (rs, st, (w', log'))"
  shows "\<exists>new. log' = log @ new
           \<and> map fst new = map (\<lambda>i. ps\<lparr>page := Some (Num i)\<rparr>) [k .. k + int (length new) - 1]
           \<and> (map snd new = map Inr rs \<or> (\<exists>e. map snd new = map Inr rs @ [Inl e]))"
  using assms
proof (induction n arbitrary: k h w log rs st)
  case 0
  then show ?case by simp
next
  case (Suc n)
  show ?case
  proof (cases h)
    case False
    then show ?thesis using Suc.prems by simp
  next
    case True
    obtain r w1 where call: "listFn (ps\<lparr>page := Some (Num k)\<rparr>) w = (r, w1)"
      by (cases "listFn (ps\<lparr>page := Some (Num k)\<rparr>) w")
    show ?thesis
    proof (cases r)
      case (Inl e)
      then have "log' = log @ [(ps\<lparr>page := Some (Num k)\<rparr>, Inl e)]" "rs = []"
        using Suc.prems True call by (auto simp: traced_apply)
      then show ?thesis by simp
    next
      case (Inr resp)
      let ?h = "js_less (Num k) (totalPages (pagination resp))"
      let ?log1 = "log @ [(ps\<lparr>page := Some (Num k)\<rparr>, Inr resp)]"
      obtain rs1 st1 wl where rest:
        "for_await n (traced listFn) ps (Loop (k + 1) ?h) (w1, ?log1) = (rs1, st1, wl)"
        by (cases "for_await n (traced listFn) ps (Loop (k + 1) ?h) (w1, ?log1)") auto
      from Suc.prems True call Inr rest
      have eq: "rs = resp # rs1" "st = st1" "wl = (w', log')"
        by (auto simp: traced_apply)
      from Suc.IH[OF rest[unfolded eq(3)]] obtain new where new:
        "log' = ?log1 @ new"
        "map fst new = map (\<lambda>i. ps\<lparr>page := Some (Num i)\<rparr>) [k + 1 .. k + 1 + int (length new) - 1]"
        "map snd new = map Inr rs1 \<or> (\<exists>e. map snd new = map Inr rs1 @ [Inl e])"
        by blast
      let ?new = "(ps\<lparr>page := Some (Num k)\<rparr>, Inr resp) # new"
      have "[k .. k + int (length ?new) - 1] = k # [k + 1 .. k + 1 + int (length new) - 1]"
        by (simp add: upto_rec1[of k] add.commute add.left_commute)
      then have "map fst ?new = map (\<lambda>i. ps\<lparr>page := Some (Num i)\<rparr>) [k .. k + int (length ?new) - 1]"
        using new(2) by simp
      moreover have "log' = log @ ?new" using new(1) by simp
      moreover have "map snd ?new = map Inr rs \<or> (\<exists>e. map snd ?new = map Inr rs @ [Inl e])"
        using new(3) eq(1) by auto
      ultimately show ?thesis by blast
    qed
  qed
qed

text \<open>
  Claim C5, amended. Whatever the list function, the first step of a fresh sequence calls
  it once, for page 1, and gives out the page it answers, or throws its error; a sequence
  that has given out the page before \<open>k\<close> and goes on calls it once for page \<open>k\<close>; a sequence
  that does not go on is done without a call. So the calls a consumer of \<open>pages\<close> causes are
  those for the pages 1, 2, 3, ... in this order, one call for each page it is given and at
  most one more, which failed; the other parameters are passed on unchanged. After the page
  \<open>k\<close> has been given out, the sequence ends exactly when \<open>k < totalPages\<close> is false for the
  \<open>totalPages\<close> of that page. The \<open>hasMore\<close> field of the page is not read: the end is the
  one \<open>hasMore\<close> tells for the pages whose \<open>hasMore\<close> is \<open>k < totalPages\<close>, as
  \<open>extractPaginationInfo\<close> computes it for the page requested.
\<close>

theorem pages_one_page_at_a_time:
  "(\<forall>r w1. listFn (ps\<lparr>page := Some (Num 1)\<rparr>) w = (Inr r, w1) \<longrightarrow>
       pages_next listFn ps pages_start w
         = (Yield r, Loop 2 (js_less (Num 1) (totalPages (pagination r))), w1)
     \<and> pages_next (traced listFn) ps pages_start (w, [])
         = (Yield r, Loop 2 (js_less (Num 1) (totalPages (pagination r))),
            (w1, [(ps\<lparr>page := Some (Num 1)\<rparr>, Inr r)])))
   \<and> (\<forall>e w1. listFn (ps\<lparr>page := Some (Num 1)\<rparr>) w = (Inl e, w1) \<longrightarrow>
       pages_next listFn ps pages_start w = (Threw e, Loop 1 False, w1))
   \<and> (\<forall>k r w1. listFn (ps\<lparr>page := Some (Num k)\<rparr>) w = (Inr r, w1) \<longrightarrow>
       pages_next listFn ps (Loop k True) w
         = (Yield r, Loop (k + 1) (js_less (Num k) (totalPages (pagination r))), w1)
     \<and> pages_next (traced listFn) ps (Loop k True) (w, [])
         = (Yield r, Loop (k + 1) (js_less (Num k) (totalPages (pagination r))),
            (w1, [(ps\<lparr>page := Some (Num k)\<rparr>, Inr r)])))
   \<and> pages_next listFn ps (Loop k False) w = (Done, Loop k False, w)
   \<and> (\<forall>n rs st w' log.
       for_await n (traced listFn) ps pages_start (w, []) = (rs, st, (w', log)) \<longrightarrow>
         map fst log = map (\<lambda>i. ps\<lparr>page := Some (Num i)\<rparr>) [1 .. int (length log)]
       \<and> (map snd log = map Inr rs \<or> (\<exists>e. map snd log = map Inr rs @ [Inl e])))
   \<and> (\<forall>k r st w1.
       pages_next listFn ps (Loop k True) w = (Yield r, st, w1) \<longrightarrow>
         listFn (ps\<lparr>page := Some (Num k)\<rparr>) w = (Inr r, w1)
       \<and> page_var st = k + 1
       \<and> (fst (pages_next listFn ps st w1) = Done
            \<longleftrightarrow> \<not> js_less (Num k) (totalPages (pagination r)))
       \<and> (hasMore (pagination r) = js_less (Num k) (totalPages (pagination r))
            \<longrightarrow> (fst (pages_next listFn ps st w1) = Done \<longleftrightarrow> \<not> hasMore (pagination r))))"
proof -
  have a: "map fst log = map (\<lambda>i. ps\<lparr>page := Some (Num i)\<rparr>) [1 .. int (length log)]
       \<and> (map snd log = map Inr rs \<or> (\<exists>e. map snd log = map Inr rs @ [Inl e]))"
    if "for_await n (traced listFn) ps pages_start (w, []) = (rs, st, (w', log))"
    for n rs st w' log
    using for_await_traced[OF that[unfolded pages_start_def]] by auto
  have b: "listFn (ps\<lparr>page := Some (Num k)\<rparr>) w = (Inr r, w1)
       \<and> page_var st = k + 1
       \<and> (fst (pages_next listFn ps st w1) = Done
            \<longleftrightarrow> \<not> js_less (Num k) (totalPages (pagination r)))"
    if "pages_next listFn ps (Loop k True) w = (Yield r, st, w1)" for k r st w1
  proof -
    from that have 1: "listFn (ps\<lparr>page := Some (Num k)\<rparr>) w = (Inr r, w1)"
      and 2: "st = Loop (k + 1) (js_less (Num k) (totalPages (pagination r)))"
      by (auto split: prod.splits sum.splits)
    have "fst (pages_next listFn ps st w1) = Done
            \<longleftrightarrow> \<not> js_less (Num k) (totalPages (pagination r))"
      unfolding 2 by (auto split: prod.splits sum.splits)
    then show ?thesis using 1 2 by simp
  qed
  have c: "pages_next listFn ps (Loop k True) w
         = (Yield r, Loop (k + 1) (js_less (Num k) (totalPages (pagination r))), w1)
     \<and> pages_next (traced listFn) ps (Loop k True) (w, [])
         = (Yield r, Loop (k + 1) (js_less (Num k) (totalPages (pagination r))),
            (w1, [(ps\<lparr>page := Some (Num k)\<rparr>, Inr r)]))"
    if "listFn (ps\<lparr>page := Some (Num k)\<rparr>) w = (Inr r, w1)" for k r w1
    using that by (simp add: traced_apply)
  have d: "pages_next listFn ps pages_start w = (Threw e, Loop 1 False, w1)"
    if "listFn (ps\<lparr>page := Some (Num 1)\<rparr>) w = (Inl e, w1)" for e w1
    using that by (simp add: pages_start_def)
  have e: "pages_next listFn ps (Loop k False) w = (Done, Loop k False, w)" by simp
  have c1: "pages_next listFn ps pages_start w
         = (Yield r, Loop 2 (js_less (Num 1) (totalPages (pagination r))), w1)
     \<and> pages_next (traced listFn) ps pages_start (w, [])
         = (Yield r, Loop 2 (js_less (Num 1) (totalPages (pagination r))),
            (w1, [(ps\<lparr>page := Some (Num 1)\<rparr>, Inr r)]))"
    if "listFn (ps\<lparr>page := Some (Num 1)\<rparr>) w = (Inr r, w1)" for r w1
    using c[OF that] by (simp add: pages_start_def)
  show ?thesis using a b c c1 d e by (intro conjI allI impI) (blast+)
qed

text \<open>
  Claim C5, as stated: the sequence stops when the \<open>hasMore\<close> field of the last page is false.
  A list function that reports two total pages and \<open>hasMore: false\<close> is asked for page 2
  after page 1.
\<close>

theorem pages_one_page_at_a_time_counterexample:
  "pages_next flat_listFn no_params pages_start 0 = (Yield flat_page, Loop 2 True, 1)
   \<and> hasMore (pagination flat_page) = False
   \<and> pages_next flat_listFn no_params (Loop 2 True) 1 = (Yield flat_page, Loop 3 False, 2)"
  by (simp add: pages_start_def flat_listFn_def flat_page_def)

theorem pages_one_page_at_a_time_witness:
  "for_await 5 three_pages_listFn no_params pages_start 0
     = (map (\<lambda>k. \<lparr>items = three_pages ! nat (k - 1),
                    pagination = \<lparr>total_items = Num 207, totalPages = Num 3, currentPage = Num k,
                                  perPage = Num 100, hasMore = (k < 3)\<rparr>\<rparr>) [1, 2, 3],
        Loop 4 False, 3)
   \<and> (\<exists>rs st log. for_await 5 (traced three_pages_listFn) no_params pages_start (0, []) = (rs, st, (3, log))
        \<and> map fst log = map (\<lambda>i. no_params\<lparr>page := Some (Num i)\<rparr>) [1, 2, 3])"
proof -
  have run: "for_await 5 three_pages_listFn no_params pages_start 0
     = (map (\<lambda>k. \<lparr>items = three_pages ! nat (k - 1),
                    pagination = \<lparr>total_items = Num 207, totalPages = Num 3, currentPage = Num k,
                                  perPage = Num 100, hasMore = (k < 3)\<rparr>\<rparr>) [1, 2, 3],
        Loop 4 False, 3)"
    by (simp add: eval_nat_numeral pages_start_def three_pages_listFn_def no_params_def
        del: upt_rec_numeral)
  obtain rs st w' log where t:
    "for_await 5 (traced three_pages_listFn) no_params pages_start (0, []) = (rs, st, (w', log))"
    by (metis prod.exhaust)
  have len: "length log = 3" "w' = 3"
    using t by (auto simp: eval_nat_numeral pages_start_def three_pages_listFn_def no_params_def
        traced_apply simp del: upt_rec_numeral)
  have up: "[1 .. 3] = [1, 2, 3 :: int]" by (simp add: upto_rec1)
  from pages_one_page_at_a_time[of three_pages_listFn no_params 0] t
  have "map fst log = map (\<lambda>i. no_params\<lparr>page := Some (Num i)\<rparr>) [1 .. int (length log)]"
    by blast
  then show ?thesis using run t len up by auto
qed

section \<open>Properties of the request executor\<close>

lemma posts_request_url:
  "buildUrl (baseUrl posts_request) (path posts_request) (params posts_request)
     = Inr ''https://example.com/wp/v2/posts''"
  by (simp add: posts_request_def buildUrl_def buildSearchParams_def URLSearchParams_toString_def
      normalizeUrl_def endsWith_def startsWith_def)

lemma before_hook_run:
  "(case h of None \<Rightarrow> w1 = w | Some before \<Rightarrow> before w = (Inr (), w1))
     \<Longrightarrow> call_optional h w = (Inr (), w1)"
  by (simp add: call_optional_def split: option.splits)

lemma makeApiRequest_retry_step:
  assumes "buildUrl (baseUrl config) (path config) (params config) = Inr url"
    and "auth config = Some a"
    and "case beforeRequest a of None \<Rightarrow> w1 = w | Some before \<Rightarrow> before w = (Inr (), w1)"
    and "fetch url (build_requestInit config) w1 = (Inr response, w2)"
    and "\<not> ok response"
    and "shouldRefresh a = Some should"
    and "should response w2 = (Inr True, w3)"
    and "refresh a = Some f"
    and "f w3 = (Inr (), w4)"
  shows "makeApiRequest fetch config w = makeApiRequest fetch config w4"
proof -
  have "call_optional (beforeRequest a) w = (Inr (), w1)"
    using assms(3) by (rule before_hook_run)
  moreover have "call_optional (refresh a) w3 = (Inr (), w4)"
    using assms(8,9) by (simp add: call_optional_def)
  ultimately show ?thesis
    by (subst makeApiRequest.simps) (simp add: assms auth_hook_def)
qed

lemma makeApiRequest_ok_step:
  assumes "buildUrl (baseUrl config) (path config) (params config) = Inr url"
    and "auth config = Some a"
    and "beforeRequest a = None"
    and "fetch url (build_requestInit config) w = (Inr response, w2)"
    and "ok response"
    and "afterRequest a = None"
  shows "makeApiRequest fetch config w = Some (Inr response, w2)"
  by (subst makeApiRequest.simps) (simp add: assms auth_hook_def call_optional_def)

lemma makeApiRequest_no_auth:
  assumes "buildUrl (baseUrl config) (path config) (params config) = Inr url"
    and "auth config = None"
    and "fetch url (build_requestInit config) w = (Inr response, w2)"
    and "ok response"
  shows "makeApiRequest fetch config w = Some (Inr response, w2)"
  by (subst makeApiRequest.simps) (simp add: assms auth_hook_def call_optional_def)

text \<open>
  Claim C2. When the response is not OK and \<open>shouldRefresh\<close> answers true, \<open>refresh\<close> is
  called, in the world that \<open>beforeRequest\<close>, the transport and \<open>shouldRefresh\<close> have left,
  and the outcome of the request is the outcome of one new run of the whole request, with the
  same configuration, started in the world that \<open>refresh\<close> has left. In particular, with no
  other hook, a transport that fails once and answers OK to the call that follows the
  refresh makes the request return that second response, after two calls of the transport
  and one of \<open>refresh\<close>. The instance that follows is a transport that answers 401 and then
  200, with a \<open>refresh\<close> that only counts its calls: \<open>apiGet\<close> returns the body of the 200,
  the transport has been called twice and \<open>refresh\<close> once.
\<close>

theorem makeApiRequest_refresh_retry:
  "(buildUrl (baseUrl config) (path config) (params config) = Inr url
      \<and> auth config = Some a
      \<and> (case beforeRequest a of None \<Rightarrow> w1 = w | Some before \<Rightarrow> before w = (Inr (), w1))
      \<and> fetch url (build_requestInit config) w1 = (Inr response, w2)
      \<and> \<not> ok response
      \<and> shouldRefresh a = Some should
      \<and> should response w2 = (Inr True, w3)
      \<and> refresh a = Some f
      \<and> f w3 = (Inr (), w4)
    \<longrightarrow> makeApiRequest fetch config w = makeApiRequest fetch config w4)
   \<and> (buildUrl (baseUrl config) (path config) (params config) = Inr url
      \<and> auth config = Some a
      \<and> beforeRequest a = None \<and> afterRequest a = None
      \<and> fetch url (build_requestInit config) w = (Inr response, w2)
      \<and> \<not> ok response
      \<and> shouldRefresh a = Some should
      \<and> should response w2 = (Inr True, w3)
      \<and> refresh a = Some f
      \<and> f w3 = (Inr (), w4)
      \<and> fetch url (build_requestInit config) w4 = (Inr response', w5)
      \<and> ok response'
    \<longrightarrow> makeApiRequest fetch config w = Some (Inr response', w5))"
proof (intro conjI impI)
  assume "buildUrl (baseUrl config) (path config) (params config) = Inr url
      \<and> auth config = Some a
      \<and> (case beforeRequest a of None \<Rightarrow> w1 = w | Some before \<Rightarrow> before w = (Inr (), w1))
      \<and> fetch url (build_requestInit config) w1 = (Inr response, w2)
      \<and> \<not> ok response
      \<and> shouldRefresh a = Some should
      \<and> should response w2 = (Inr True, w3)
      \<and> refresh a = Some f
      \<and> f w3 = (Inr (), w4)"
  then show "makeApiRequest fetch config w = makeApiRequest fetch config w4"
    using makeApiRequest_retry_step[of config url a w1 w fetch response w2 should w3 f w4] by blast
next
  assume h: "buildUrl (baseUrl config) (path config) (params config) = Inr url
      \<and> auth config = Some a
      \<and> beforeRequest a = None \<and> afterRequest a = None
      \<and> fetch url (build_requestInit config) w = (Inr response, w2)
      \<and> \<not> ok response
      \<and> shouldRefresh a = Some should
      \<and> should response w2 = (Inr True, w3)
      \<and> refresh a = Some f
      \<and> f w3 = (Inr (), w4)
      \<and> fetch url (build_requestInit config) w4 = (Inr response', w5)
      \<and> ok response'"
  then have b: "case beforeRequest a of None \<Rightarrow> w = w | Some before \<Rightarrow> before w = (Inr (), w)"
    by simp
  have "makeApiRequest fetch config w = makeApiRequest fetch config w4"
    using h b makeApiRequest_retry_step[of config url a w w fetch response w2 should w3 f w4]
    by blast
  also have "\<dots> = Some (Inr response', w5)"
    using h makeApiRequest_ok_step[of config url a fetch w4 response' w5] by blast
  finally show "makeApiRequest fetch config w = Some (Inr response', w5)" .
qed

lemma apiGet_posts_request:
  "apiGet fetch ''https://example.com'' ''/wp/v2/posts'' None (Some refreshing_auth) None w =
     (case makeApiRequest fetch posts_request w of
        None \<Rightarrow> None
      | Some (Inl e, w1) \<Rightarrow> Some (Inl e, w1)
      | Some (Inr response, w1) \<Rightarrow> Some (response_json response, w1))"
  by (simp add: apiGet_def posts_request_def)

theorem makeApiRequest_refresh_retry_witness:
  "fetch_401_then_200 ''https://example.com/wp/v2/posts'' (build_requestInit posts_request) (0, 0)
     = (Inr unauthorized, (1, 0))
   \<and> \<not> ok unauthorized
   \<and> refresh refreshing_auth = Some counted_refresh
   \<and> counted_refresh (1, 0) = (Inr (), (1, 1))
   \<and> fetch_401_then_200 ''https://example.com/wp/v2/posts'' (build_requestInit posts_request) (1, 1)
     = (Inr (ok_response [] (JString ''body'')), (2, 1))
   \<and> makeApiRequest fetch_401_then_200 posts_request (0, 0)
       = Some (Inr (ok_response [] (JString ''body'')), (2, 1))
   \<and> apiGet fetch_401_then_200 ''https://example.com'' ''/wp/v2/posts'' None (Some refreshing_auth)
        None (0, 0)
       = Some (Inr (JString ''body''), (2, 1))"
proof -
  have au: "auth posts_request = Some refreshing_auth" by (simp add: posts_request_def)
  have run: "makeApiRequest fetch_401_then_200 posts_request (0, 0)
      = Some (Inr (ok_response [] (JString ''body'')), (2, 1))"
    using makeApiRequest_refresh_retry[where config = posts_request
        and url = "''https://example.com/wp/v2/posts''" and a = refreshing_auth
        and w = "(0, 0)" and fetch = fetch_401_then_200 and response = unauthorized
        and ?w2.0 = "(1, 0)" and should = "\<lambda>r w. (Inr True, w)" and ?w3.0 = "(1, 0)"
        and f = counted_refresh and ?w4.0 = "(1, 1)"
        and response' = "ok_response [] (JString ''body'')" and ?w5.0 = "(2, 1)"]
      posts_request_url au
    by (simp add: fetch_401_then_200_def refreshing_auth_def unauthorized_def ok_response_def
        counted_refresh_def)
  have get: "apiGet fetch_401_then_200 ''https://example.com'' ''/wp/v2/posts'' None
        (Some refreshing_auth) None (0, 0) = Some (Inr (JString ''body''), (2, 1))"
    using run by (simp add: apiGet_posts_request response_json_def ok_response_def)
  have "refresh refreshing_auth = Some counted_refresh" by (simp add: refreshing_auth_def)
  then show ?thesis
    using run get
    by (simp add: fetch_401_then_200_def unauthorized_def counted_refresh_def)
qed

text \<open>
  Each failed response that asks for a refresh is retried once more, with no bound on how
  often this happens: against a transport that always answers 401, the request never
  settles.
\<close>

lemma makeApiRequest_never_settles:
  assumes "makeApiRequest fetch config w = Some y"
  shows "\<not> (fetch = fetch_always_401 \<and> config = posts_request)"
proof (rule makeApiRequest.raw_induct[where P = "\<lambda>fetch config w y.
    \<not> (fetch = fetch_always_401 \<and> config = posts_request)", OF _ assms])
  fix self :: "(string \<Rightarrow> RequestInit \<Rightarrow> (response, nat \<times> nat) promise)
     \<Rightarrow> (nat \<times> nat) ApiRequestConfig \<Rightarrow> nat \<times> nat
     \<Rightarrow> ((error + response) \<times> nat \<times> nat) option"
  fix fetch config w y
  assume ih: "\<And>fetch config w y. self fetch config w = Some y \<Longrightarrow>
      \<not> (fetch = fetch_always_401 \<and> config = posts_request)"
  assume step: "(case buildUrl (baseUrl config) (path config) (params config) of
        Inl e \<Rightarrow> Some (Inl e, w)
      | Inr url \<Rightarrow>
          (case call_optional (auth_hook (auth config) beforeRequest) w of
             (Inl e, w1) \<Rightarrow> Some (Inl e, w1)
           | (Inr u, w1) \<Rightarrow>
               (case fetch url (build_requestInit config) w1 of
                  (Inl e, w2) \<Rightarrow> Some (Inl e, w2)
                | (Inr response, w2) \<Rightarrow>
                    if \<not> ok response then
                      (case auth_hook (auth config) shouldRefresh of
                         None \<Rightarrow> Some (Inl (handleApiError response), w2)
                       | Some should \<Rightarrow>
                           (case should response w2 of
                              (Inl e, w3) \<Rightarrow> Some (Inl e, w3)
                            | (Inr b, w3) \<Rightarrow>
                                if b then
                                  (case call_optional (auth_hook (auth config) refresh) w3 of
                                     (Inl e, w4) \<Rightarrow> Some (Inl e, w4)
                                   | (Inr u', w4) \<Rightarrow> self fetch config w4)
                                else Some (Inl (handleApiError response), w3)))
                    else
                      (case auth_hook (auth config) afterRequest of
                         None \<Rightarrow> Some (Inr response, w2)
                       | Some after \<Rightarrow> Some (after response w2))))) = Some y"
  show "\<not> (fetch = fetch_always_401 \<and> config = posts_request)"
  proof
    assume c: "fetch = fetch_always_401 \<and> config = posts_request"
    have au: "auth posts_request = Some refreshing_auth" by (simp add: posts_request_def)
    from step c posts_request_url au
    have "self fetch_always_401 posts_request (fst w + 1, snd w + 1) = Some y"
      by (simp add: fetch_always_401_def refreshing_auth_def unauthorized_def auth_hook_def
          call_optional_def counted_refresh_def)
    with ih show False by blast
  qed
qed

lemma makeApiRequest_refresh_forever:
  "makeApiRequest fetch_always_401 posts_request w = None"
  using makeApiRequest_never_settles[of fetch_always_401 posts_request w]
  by (cases "makeApiRequest fetch_always_401 posts_request w") auto

section \<open>Properties of paginated requests\<close>

lemma buildUrl_page_entries:
  "\<exists>url. buildUrl base p (map_option page_entries ps) = Inr url"
proof (cases ps)
  case None
  then show ?thesis by (simp add: buildUrl_def buildSearchParams_def Let_def)
next
  case (Some q)
  then show ?thesis
    by (cases "page q"; cases "per_page q")
      (simp_all add: buildUrl_def buildSearchParams_def page_entries_def Let_def)
qed

lemma fetch_25_in_3_run:
  "makeApiRequest fetch_25_in_3
     \<lparr>baseUrl = base, path = p, method_name = Some GET, params = map_option page_entries ps,
      body = None, auth = None, headers = Map.empty, signal = None\<rparr> calls
   = Some (Inr (ok_response [(''X-WP-Total'', ''25''), (''X-WP-TotalPages'', ''3'')] (JArray [])),
           calls + 1)"
proof -
  obtain url where "buildUrl base p (map_option page_entries ps) = Inr url"
    using buildUrl_page_entries by blast
  then show ?thesis
    by (intro makeApiRequest_no_auth[where url = url])
      (simp_all add: fetch_25_in_3_def ok_response_def)
qed

lemma postTypes_list_result_fields:
  "currentPage (pagination (postTypes_list_result r xs ps)) = param_or ps page 1"
  "hasMore (pagination (postTypes_list_result r xs ps)) = False"
  "totalPages (pagination (postTypes_list_result r xs ps))
     = (case headers_get r ''X-WP-TotalPages'' of
          None \<Rightarrow> Num 1 | Some t \<Rightarrow> if t \<noteq> [] then parseInt t else Num 1)"
  by (simp_all add: postTypes_list_result_def Let_def)

text \<open>
  Claim C4, as stated for every paginated GET. For a supplied \<open>page: 0\<close> the current page
  that \<open>extractPaginationInfo\<close> reports is 1: \<open>params?.page || 1\<close> replaces every falsy
  page. And the list functions of the post type, taxonomy and post status endpoints report
  \<open>hasMore: false\<close> whatever the headers say: with 3 total pages and page 2, the current
  page is below the total pages and \<open>hasMore\<close> is false.
\<close>

theorem paginated_get_counterexample:
  "currentPage (extractPaginationInfo (ok_response [(''X-WP-Total'', ''25''), (''X-WP-TotalPages'', ''3'')] JNull)
       (Some \<lparr>page = Some (Num 0), per_page = None\<rparr>)) = Num 1
   \<and> currentPage (extractPaginationInfo (ok_response [(''X-WP-Total'', ''25''), (''X-WP-TotalPages'', ''3'')] JNull)
       (Some \<lparr>page = Some (Num 0), per_page = None\<rparr>)) \<noteq> Num 0
   \<and> currentPage (pagination (postTypes_list_result
         (ok_response [(''X-WP-Total'', ''25''), (''X-WP-TotalPages'', ''3'')] JNull) [1, 2 :: nat]
         (Some \<lparr>page = Some (Num 2), per_page = None\<rparr>))) = Num 2
   \<and> totalPages (pagination (postTypes_list_result
         (ok_response [(''X-WP-Total'', ''25''), (''X-WP-TotalPages'', ''3'')] JNull) [1, 2 :: nat]
         (Some \<lparr>page = Some (Num 2), per_page = None\<rparr>))) = Num 3
   \<and> hasMore (pagination (postTypes_list_result
         (ok_response [(''X-WP-Total'', ''25''), (''X-WP-TotalPages'', ''3'')] JNull) [1, 2 :: nat]
         (Some \<lparr>page = Some (Num 2), per_page = None\<rparr>))) = False"
  by (simp add: extractPaginationInfo_fields postTypes_list_result_fields param_or_def
      ok_response_def parseInt_def is_space_def is_digit_def digits_value_def)

text \<open>
  Claim C4, amended. A paginated GET made through \<open>apiGetPaginated\<close> returns the parsed body
  with the pagination that \<open>extractPaginationInfo\<close> computes from the response and the
  parameters of the call. In that pagination \<open>currentPage\<close> is 1 when the page parameter is
  omitted, the page parameter when it is a number other than 0, and 1 when it is 0 or
  \<open>NaN\<close>, and \<open>hasMore\<close> is \<open>currentPage < totalPages\<close>. The list functions of the post
  type, taxonomy and post status endpoints build their pagination by hand: its
  \<open>currentPage\<close> follows the same rule and its \<open>hasMore\<close> is always false. The instance that
  follows is the example of the specification: with the headers total 25 and total pages 3,
  page 2 has \<open>currentPage = 2\<close> and \<open>hasMore\<close>, and page 3 has no more.
\<close>

theorem extractPaginationInfo_currentPage_hasMore:
  "(ps = None \<or> (\<exists>p. ps = Some p \<and> page p = None)
      \<longrightarrow> currentPage (extractPaginationInfo r ps) = Num 1)
   \<and> (\<forall>p n. ps = Some p \<and> page p = Some (Num n) \<and> n \<noteq> 0
      \<longrightarrow> currentPage (extractPaginationInfo r ps) = Num n)
   \<and> (\<forall>p. ps = Some p \<and> (page p = Some (Num 0) \<or> page p = Some NaN)
      \<longrightarrow> currentPage (extractPaginationInfo r ps) = Num 1)
   \<and> hasMore (extractPaginationInfo r ps)
       = js_less (currentPage (extractPaginationInfo r ps)) (totalPages (extractPaginationInfo r ps))
   \<and> (\<forall>response parsed w1.
         makeApiRequest fetch
           \<lparr>baseUrl = base, path = pth, method_name = Some GET, params = map_option entries ps,
            body = None, auth = a, headers = Map.empty, signal = sig\<rparr> w
           = Some (Inr response, w1)
         \<and> json response = Some parsed
       \<longrightarrow> apiGetPaginated fetch entries base pth ps a sig w
             = Some (Inr (parsed, extractPaginationInfo response ps), w1))
   \<and> (\<forall>parsed pg w1.
         apiGetPaginated fetch entries base pth ps a sig w = Some (Inr (parsed, pg), w1)
       \<longrightarrow> currentPage pg = currentPage (extractPaginationInfo r ps)
         \<and> hasMore pg = js_less (currentPage pg) (totalPages pg))
   \<and> currentPage (pagination (postTypes_list_result r xs ps))
       = currentPage (extractPaginationInfo r ps)
   \<and> hasMore (pagination (postTypes_list_result r xs ps)) = False"
proof -
  have 1: "ps = None \<or> (\<exists>p. ps = Some p \<and> page p = None)
      \<longrightarrow> currentPage (extractPaginationInfo r ps) = Num 1"
    by (auto simp: extractPaginationInfo_fields param_or_def)
  have 2: "\<forall>p n. ps = Some p \<and> page p = Some (Num n) \<and> n \<noteq> 0
      \<longrightarrow> currentPage (extractPaginationInfo r ps) = Num n"
    by (auto simp: extractPaginationInfo_fields param_or_def)
  have 3: "\<forall>p. ps = Some p \<and> (page p = Some (Num 0) \<or> page p = Some NaN)
      \<longrightarrow> currentPage (extractPaginationInfo r ps) = Num 1"
    by (auto simp: extractPaginationInfo_fields param_or_def)
  have 4: "hasMore (extractPaginationInfo r ps)
       = js_less (currentPage (extractPaginationInfo r ps)) (totalPages (extractPaginationInfo r ps))"
    by (simp add: extractPaginationInfo_fields)
  have 5: "apiGetPaginated fetch entries base pth ps a sig w
             = Some (Inr (parsed, extractPaginationInfo response ps), w1)"
    if "makeApiRequest fetch
           \<lparr>baseUrl = base, path = pth, method_name = Some GET, params = map_option entries ps,
            body = None, auth = a, headers = Map.empty, signal = sig\<rparr> w
           = Some (Inr response, w1) \<and> json response = Some parsed"
    for response parsed w1
    using that by (simp add: apiGetPaginated_def response_json_def)
  have 6: "currentPage pg = currentPage (extractPaginationInfo r ps)
         \<and> hasMore pg = js_less (currentPage pg) (totalPages pg)"
    if "apiGetPaginated fetch entries base pth ps a sig w = Some (Inr (parsed, pg), w1)"
    for parsed pg w1
  proof -
    from that obtain response where "pg = extractPaginationInfo response ps"
      by (auto simp: apiGetPaginated_def split: option.splits prod.splits sum.splits)
    then show ?thesis by (simp add: extractPaginationInfo_fields)
  qed
  have 7: "currentPage (pagination (postTypes_list_result r xs ps))
       = currentPage (extractPaginationInfo r ps)"
    "hasMore (pagination (postTypes_list_result r xs ps)) = False"
    by (simp_all add: postTypes_list_result_fields extractPaginationInfo_fields)
  show ?thesis using 1 2 3 4 5 6 7 by (intro conjI allI impI) blast+
qed

theorem extractPaginationInfo_currentPage_hasMore_witness:
  "apiGetPaginated fetch_25_in_3 page_entries ''https://example.com'' ''/wp/v2/posts''
      (Some \<lparr>page = Some (Num 2), per_page = None\<rparr>) None None 0
     = Some (Inr (JArray [],
                  \<lparr>total_items = Num 25, totalPages = Num 3, currentPage = Num 2,
                   perPage = Num 10, hasMore = True\<rparr>), 1)
   \<and> apiGetPaginated fetch_25_in_3 page_entries ''https://example.com'' ''/wp/v2/posts''
      (Some \<lparr>page = Some (Num 3), per_page = None\<rparr>) None None 1
     = Some (Inr (JArray [],
                  \<lparr>total_items = Num 25, totalPages = Num 3, currentPage = Num 3,
                   perPage = Num 10, hasMore = False\<rparr>), 2)"
proof -
  let ?r = "ok_response [(''X-WP-Total'', ''25''), (''X-WP-TotalPages'', ''3'')] (JArray [])"
  have j: "json ?r = Some (JArray [])" by (simp add: ok_response_def)
  have e: "extractPaginationInfo ?r (Some \<lparr>page = Some (Num k), per_page = None\<rparr>)
      = \<lparr>total_items = Num 25, totalPages = Num 3, currentPage = (if k = 0 then Num 1 else Num k),
         perPage = Num 10, hasMore = (k \<noteq> 0 \<and> k < 3 \<or> k = 0)\<rparr>" for k
    by (auto simp: extractPaginationInfo_def param_or_def header_or_def ok_response_def
        parseInt_def is_space_def is_digit_def digits_value_def)
  have "apiGetPaginated fetch_25_in_3 page_entries ''https://example.com'' ''/wp/v2/posts''
      (Some \<lparr>page = Some (Num k), per_page = None\<rparr>) None None c
     = Some (Inr (JArray [], extractPaginationInfo ?r (Some \<lparr>page = Some (Num k), per_page = None\<rparr>)),
             c + 1)" for k c
    using extractPaginationInfo_currentPage_hasMore[where fetch = fetch_25_in_3
        and entries = page_entries and base = "''https://example.com''" and pth = "''/wp/v2/posts''"
        and ps = "Some \<lparr>page = Some (Num k), per_page = None\<rparr>" and a = None and sig = None
        and w = c]
      fetch_25_in_3_run[of "''https://example.com''" "''/wp/v2/posts''"
        "Some \<lparr>page = Some (Num k), per_page = None\<rparr>" c] j
    by blast
  from this[of 2 0] this[of 3 1] show ?thesis by (simp add: e)
qed

section \<open>Properties of authentication\<close>

lemma btoa_example: "btoa ''admin:secret123'' = ''YWRtaW46c2VjcmV0MTIz''"
  by (simp add: btoa_def b64_def)

text \<open>
  Claim C3 fails for the method \<open>basic\<close>: with credentials that have a \<open>username\<close> and no
  \<open>password\<close>, \<open>createAuth\<close> throws nothing and returns a strategy whose header encodes
  \<open>admin:undefined\<close>. Only the \<open>username\<close> is checked, although the message of the check
  names both fields and the checks for \<open>hmac\<close> and \<open>oauth2\<close> test both of theirs.
\<close>

theorem createAuth_basic_without_password:
  "createAuth basic_without_password = Inr (basic username_only)
   \<and> AuthResponse.headers (basic username_only :: unit AuthResponse) ''Authorization''
     = Some ''Basic YWRtaW46dW5kZWZpbmVk''"
  by (simp add: createAuth_def basic_without_password_def username_only_def basic_def field_def
      btoa_def b64_def)

text \<open>The checks that \<open>createAuth\<close> does make, each with the message it throws.\<close>

lemma createAuth_checked_fields:
  "credentials config = None \<Longrightarrow> AuthConfig.method_name config \<noteq> ''none'' \<Longrightarrow> isl (createAuth config)"
  "credentials config = Some c \<Longrightarrow> AuthConfig.method_name config = ''basic'' \<Longrightarrow> c ''username'' = None
     \<Longrightarrow> createAuth config = Inl (Error ''Basic auth requires username and password'')"
  "credentials config = Some c \<Longrightarrow> AuthConfig.method_name config = ''bearer'' \<Longrightarrow> c ''token'' = None
     \<Longrightarrow> createAuth config = Inl (Error ''Bearer auth requires a token'')"
  "credentials config = Some c \<Longrightarrow> AuthConfig.method_name config = ''apiKey'' \<Longrightarrow> c ''apiKey'' = None
     \<Longrightarrow> createAuth config = Inl (Error ''API Key auth requires an apiKey'')"
  "credentials config = Some c \<Longrightarrow> AuthConfig.method_name config = ''hmac''
     \<Longrightarrow> c ''apiKey'' = None \<or> c ''secret'' = None
     \<Longrightarrow> createAuth config = Inl (Error ''HMAC auth requires an apiKey and secret'')"
  "credentials config = Some c \<Longrightarrow> AuthConfig.method_name config = ''nonce'' \<Longrightarrow> c ''nonce'' = None
     \<Longrightarrow> createAuth config = Inl (Error ''Nonce auth requires a nonce'')"
  "credentials config = Some c \<Longrightarrow> AuthConfig.method_name config = ''oauth2''
     \<Longrightarrow> c ''clientId'' = None \<or> c ''clientSecret'' = None
     \<Longrightarrow> createAuth config = Inl (Error ''OAuth2 requires clientId and clientSecret'')"
  by (simp_all add: createAuth_def Let_def)

section \<open>Properties of the parameter serialization\<close>

text \<open>
  Claim C9 fails for \<open>_embed: false\<close>: the branch for \<open>_embed\<close> is taken for the value
  \<open>true\<close> only, so \<open>false\<close> falls through to the last branch and \<open>_embed=false\<close> is
  emitted.
\<close>

theorem buildSearchParams_embed_false:
  "buildSearchParams (Some [(''_embed'', JBool False)]) = Inr [(''_embed'', ''false'')]
   \<and> buildUrl ''https://example.com'' ''/wp/v2/posts'' (Some [(''_embed'', JBool False)])
     = Inr ''https://example.com/wp/v2/posts?_embed=false''"
  by (simp add: buildSearchParams_def buildUrl_def URLSearchParams_toString_def urlencoded_def
      urlencoded_byte_def urlencoded_keep_def normalizeUrl_def endsWith_def startsWith_def)

text \<open>The other rules of the serialization, and the examples of the specification.\<close>

lemma append_entry_rules:
  "append_entry key JUndefined = Inr []"
  "append_entry key JNull = Inr []"
  "append_entry ''_fields'' (JArray xs) =
     (if xs = [] then Inr [] else Inr [(''_fields'', Array_join '','' xs)])"
  "append_entry ''_embed'' (JBool True) = Inr [(''_embed'', ''true'')]"
  "key \<noteq> ''_fields'' \<Longrightarrow> append_entry key (JArray xs) = append_array key xs"
  "append_entry key (JArray []) = Inr []"
  by (auto)

lemma append_array_defined:
  "JUndefined \<notin> set xs \<Longrightarrow> JNull \<notin> set xs \<Longrightarrow> append_array key xs = Inr (map (\<lambda>v. (key, str v)) xs)"
proof (induction xs)
  case Nil
  then show ?case by simp
next
  case (Cons v vs)
  then show ?case by (cases v) auto
qed

lemma forEach_entry_append:
  "forEach_entry es = Inr ps \<Longrightarrow> forEach_entry fs = Inr qs \<Longrightarrow> forEach_entry (es @ fs) = Inr (ps @ qs)"
proof (induction es arbitrary: ps)
  case Nil
  then show ?case by simp
next
  case (Cons e es)
  obtain k v where e: "e = (k, v)" by (cases e)
  from Cons.prems(1) e obtain a b where ab: "append_entry k v = Inr a" "forEach_entry es = Inr b" "ps = a @ b"
    by (auto split: sum.splits simp del: append_entry.simps)
  from Cons.IH[OF ab(2) Cons.prems(2)] ab e show ?case by (simp del: append_entry.simps)
qed

lemma buildSearchParams_examples:
  "buildSearchParams (Some [(''_fields'', JArray [JString ''id'', JString ''title'', JString ''content''])])
     = Inr [(''_fields'', ''id,title,content'')]"
  "buildSearchParams (Some [(''categories'', JArray [JNumber (Num 1), JNumber (Num 2), JNumber (Num 3)])])
     = Inr [(''categories'', ''1''), (''categories'', ''2''), (''categories'', ''3'')]"
  "buildSearchParams (Some [(''page'', JNumber (Num 1)), (''status'', JUndefined)]) = Inr [(''page'', ''1'')]"
  "buildSearchParams (Some [(''_embed'', JBool True)]) = Inr [(''_embed'', ''true'')]"
  "buildSearchParams (Some [(''categories'', JArray [])]) = Inr []"
  by (simp_all add: buildSearchParams_def Array_join_def digits.simps)

end
